theory Spec2Isabelle
  imports Complex_Main "HOL-Library.Multiset"
begin

section \<open>Python values\<close>

text \<open>
  The two source files, \<^verbatim>\<open>src/server.py\<close> (the variant with the MongoDB cache) and
  \<^verbatim>\<open>src/api/index.py\<close> (the stateless variant), handle decoded JSON documents with
  Python's dynamic operations (\<^verbatim>\<open>x.get(k, d)\<close>, slicing, \<^verbatim>\<open>sorted\<close>, \<^verbatim>\<open>round\<close>,
  \<^verbatim>\<open>float\<close>). Every such operation is modelled on the JSON values it can meet, and
  every exception it can raise is a value \<open>Inl e\<close>.

  A Python \<^verbatim>\<open>str\<close> is a sequence of Unicode code points: \<open>pystr\<close> is the list of
  their numbers, so that \<^verbatim>\<open>len\<close> counts code points and a lone surrogate (which
  \<^verbatim>\<open>json.loads\<close> produces from an escape such as \<^verbatim>\<open>"\ud800"\<close>) is representable.
  The keys of a decoded JSON object are only ever compared with ASCII literals of the
  source; they are HOL strings.

  A finite \<^verbatim>\<open>float\<close> is idealised as an exact rational (no binary rounding, no
  overflow). The three other values of a \<^verbatim>\<open>float\<close> are values of their own:
  \<^verbatim>\<open>json.loads\<close>, which \<^verbatim>\<open>response.json()\<close> calls, decodes the literals \<^verbatim>\<open>Infinity\<close>,
  \<^verbatim>\<open>-Infinity\<close> and \<^verbatim>\<open>NaN\<close> (and a numeral too large for a double) to them.
\<close>

type_synonym pystr = "nat list"

definition ascii :: "string \<Rightarrow> pystr" where
  "ascii s = map of_char s"

datatype pyfloat = Finite rat | PosInf | NegInf | NaN

datatype json =
    JNull
  | JBool bool
  | JInt int
  | JFloat pyfloat
  | JStr pystr
  | JArr "json list"
  | JObj "(string \<times> json) list"

text \<open>
  \<open>HTTPException code detail\<close> is FastAPI's exception; \<open>PyError msg\<close> is any other
  subclass of \<^verbatim>\<open>Exception\<close>, with \<open>msg\<close> standing for \<^verbatim>\<open>str(e)\<close>. For the exceptions the
  interpreter raises itself the text is abstracted to the name of the class.
\<close>

datatype exn = HTTPException int string | PyError string

definition bind_exn :: "exn + 'a \<Rightarrow> ('a \<Rightarrow> exn + 'b) \<Rightarrow> exn + 'b" where
  "bind_exn m f = (case m of Inl e \<Rightarrow> Inl e | Inr x \<Rightarrow> f x)"

section \<open>Python's operations on JSON values\<close>

text \<open>Truth value of a decoded JSON value (\<^verbatim>\<open>if x:\<close>).\<close>

fun truthy :: "json \<Rightarrow> bool" where
  "truthy JNull = False"
| "truthy (JBool b) = b"
| "truthy (JInt n) = (n \<noteq> 0)"
| "truthy (JFloat x) = (x \<noteq> Finite 0)"
| "truthy (JStr s) = (s \<noteq> [])"
| "truthy (JArr xs) = (xs \<noteq> [])"
| "truthy (JObj kvs) = (kvs \<noteq> [])"

text \<open>
  \<^verbatim>\<open>x.get(k, d)\<close>: only a dict has \<^verbatim>\<open>get\<close>; on every other JSON value the attribute
  lookup raises AttributeError. \<open>JObj\<close> holds the items of the decoded dict, whose keys
  are distinct.
\<close>

fun py_get :: "json \<Rightarrow> string \<Rightarrow> json \<Rightarrow> exn + json" where
  "py_get (JObj kvs) k d = Inr (case map_of kvs k of Some v \<Rightarrow> v | None \<Rightarrow> d)"
| "py_get _ k d = Inl (PyError ''AttributeError'')"

text \<open>\<^verbatim>\<open>x[k]\<close> with a string key: KeyError on a dict without it, TypeError elsewhere.\<close>

fun py_item :: "json \<Rightarrow> string \<Rightarrow> exn + json" where
  "py_item (JObj kvs) k =
     (case map_of kvs k of Some v \<Rightarrow> Inr v | None \<Rightarrow> Inl (PyError ''KeyError''))"
| "py_item _ k = Inl (PyError ''TypeError'')"

text \<open>
  The numbers among the JSON values: \<^verbatim>\<open>int\<close>, \<^verbatim>\<open>float\<close> and \<^verbatim>\<open>bool\<close>, a subclass of
  \<^verbatim>\<open>int\<close> in Python. \<open>num_val\<close> is the value of a finite number.
\<close>

fun is_number :: "json \<Rightarrow> bool" where
  "is_number (JInt n) = True"
| "is_number (JFloat x) = True"
| "is_number (JBool b) = True"
| "is_number _ = False"

fun num_val :: "json \<Rightarrow> rat option" where
  "num_val (JInt n) = Some (of_int n)"
| "num_val (JFloat (Finite r)) = Some r"
| "num_val (JBool b) = Some (if b then 1 else 0)"
| "num_val _ = None"

text \<open>
  Python's order of the numbers. Every number but NaN has a place in it, \<open>ord_val\<close>:
  \<^verbatim>\<open>-inf\<close> is below and \<^verbatim>\<open>inf\<close> above every finite number, and an \<^verbatim>\<open>int\<close> and a \<^verbatim>\<open>float\<close>
  compare by value. NaN has none: \<^verbatim>\<open>a < b\<close> is false whenever \<open>a\<close> or \<open>b\<close> is NaN.
\<close>

datatype xnum = MinusInfinity | Number rat | PlusInfinity

instantiation xnum :: linorder
begin

fun less_eq_xnum :: "xnum \<Rightarrow> xnum \<Rightarrow> bool" where
  "less_eq_xnum MinusInfinity y = True"
| "less_eq_xnum (Number a) MinusInfinity = False"
| "less_eq_xnum (Number a) (Number b) = (a \<le> b)"
| "less_eq_xnum (Number a) PlusInfinity = True"
| "less_eq_xnum PlusInfinity y = (y = PlusInfinity)"

definition less_xnum :: "xnum \<Rightarrow> xnum \<Rightarrow> bool" where
  "less_xnum x y = (x \<le> y \<and> \<not> y \<le> x)"

instance
proof
  fix x y z :: xnum
  show "x < y \<longleftrightarrow> x \<le> y \<and> \<not> y \<le> x" by (simp add: less_xnum_def)
  show "x \<le> x" by (cases x) simp_all
  show "x \<le> y \<Longrightarrow> y \<le> z \<Longrightarrow> x \<le> z" by (cases x; cases y; cases z) simp_all
  show "x \<le> y \<Longrightarrow> y \<le> x \<Longrightarrow> x = y" by (cases x; cases y) simp_all
  show "x \<le> y \<or> y \<le> x" by (cases x; cases y) auto
qed

end

fun ord_val :: "json \<Rightarrow> xnum option" where
  "ord_val (JInt n) = Some (Number (of_int n))"
| "ord_val (JBool b) = Some (Number (if b then 1 else 0))"
| "ord_val (JFloat (Finite r)) = Some (Number r)"
| "ord_val (JFloat PosInf) = Some PlusInfinity"
| "ord_val (JFloat NegInf) = Some MinusInfinity"
| "ord_val _ = None"

text \<open>\<^verbatim>\<open>a < b\<close> for two numbers.\<close>

definition py_lt :: "json \<Rightarrow> json \<Rightarrow> bool" where
  "py_lt a b =
     (case (ord_val a, ord_val b) of
        (Some x, Some y) \<Rightarrow> x < y
      | _ \<Rightarrow> False)"

text \<open>
  \<^verbatim>\<open>round(x, 2)\<close>: an \<^verbatim>\<open>int\<close> (or \<^verbatim>\<open>bool\<close>) is returned as an \<^verbatim>\<open>int\<close>, a finite
  \<^verbatim>\<open>float\<close> is rounded to two decimals, ties to even, an infinity and NaN are returned as
  they are; every other JSON value has no \<^verbatim>\<open>__round__\<close> and raises TypeError.
\<close>

definition round_half_even :: "rat \<Rightarrow> int" where
  "round_half_even x =
     (let f = floor x; d = x - of_int f in
      if d < 1 / 2 then f
      else if 1 / 2 < d then f + 1
      else if even f then f else f + 1)"

definition round2 :: "rat \<Rightarrow> rat" where
  "round2 x = of_int (round_half_even (x * 100)) / 100"

fun round2f :: "pyfloat \<Rightarrow> pyfloat" where
  "round2f (Finite r) = Finite (round2 r)"
| "round2f x = x"

fun py_round2 :: "json \<Rightarrow> exn + json" where
  "py_round2 (JInt n) = Inr (JInt n)"
| "py_round2 (JBool b) = Inr (JInt (if b then 1 else 0))"
| "py_round2 (JFloat x) = Inr (JFloat (round2f x))"
| "py_round2 _ = Inl (PyError ''TypeError'')"

text \<open>
  \<^verbatim>\<open>float(x)\<close>. On a \<^verbatim>\<open>str\<close> Python parses a literal (a decimal numeral, \<^verbatim>\<open>"inf"\<close>,
  \<^verbatim>\<open>"nan"\<close>, ...); the parser is the parameter \<open>F\<close> of the model (\<open>None\<close> for a
  ValueError), so that every result below holds whatever it accepts.
\<close>

fun py_float :: "(pystr \<Rightarrow> pyfloat option) \<Rightarrow> json \<Rightarrow> exn + pyfloat" where
  "py_float F (JInt n) = Inr (Finite (of_int n))"
| "py_float F (JFloat x) = Inr x"
| "py_float F (JBool b) = Inr (Finite (if b then 1 else 0))"
| "py_float F (JStr s) = (case F s of Some x \<Rightarrow> Inr x | None \<Rightarrow> Inl (PyError ''ValueError''))"
| "py_float F _ = Inl (PyError ''TypeError'')"

text \<open>
  Iterating a JSON value (\<^verbatim>\<open>for x in v\<close>, \<^verbatim>\<open>sorted(v)\<close>): a list gives its elements,
  a dict its keys, a \<^verbatim>\<open>str\<close> its characters; anything else is not iterable.
\<close>

fun py_iter :: "json \<Rightarrow> exn + json list" where
  "py_iter (JArr xs) = Inr xs"
| "py_iter (JObj kvs) = Inr (map (\<lambda>kv. JStr (ascii (fst kv))) kvs)"
| "py_iter (JStr s) = Inr (map (\<lambda>c. JStr [c]) s)"
| "py_iter _ = Inl (PyError ''TypeError'')"

text \<open>
  The elements of \<^verbatim>\<open>v[:10]\<close>: a list or a \<^verbatim>\<open>str\<close> can be sliced; a dict, a number,
  a bool or None cannot (TypeError; a KeyError on a dict from Python 3.12 on, which the
  callers treat alike).
\<close>

fun py_slice10 :: "json \<Rightarrow> exn + json list" where
  "py_slice10 (JArr xs) = Inr (take 10 xs)"
| "py_slice10 (JStr s) = Inr (map (\<lambda>c. JStr [c]) (take 10 s))"
| "py_slice10 _ = Inl (PyError ''TypeError'')"

text \<open>A loop body that may raise, run over a list: the first exception ends the loop.\<close>

fun traverse :: "('a \<Rightarrow> exn + 'b) \<Rightarrow> 'a list \<Rightarrow> exn + 'b list" where
  "traverse f [] = Inr []"
| "traverse f (x # xs) =
     (case f x of
        Inl e \<Rightarrow> Inl e
      | Inr y \<Rightarrow> (case traverse f xs of Inl e \<Rightarrow> Inl e | Inr ys \<Rightarrow> Inr (y # ys)))"

section \<open>Dates and times\<close>

text \<open>
  A timezone-aware UTC \<^verbatim>\<open>datetime\<close> with its seven fields. \<^verbatim>\<open>isoformat()\<close> renders
  these fields one to one and \<^verbatim>\<open>fromisoformat\<close> reads them back, so timestamps are kept
  as records.
\<close>

record datetime =
  year :: int
  month :: int
  day :: int
  hour :: int
  minute :: int
  second :: int
  microsecond :: int

definition is_leap :: "int \<Rightarrow> bool" where
  "is_leap y = (y mod 4 = 0 \<and> (y mod 100 \<noteq> 0 \<or> y mod 400 = 0))"

definition days_in_month :: "int \<Rightarrow> int \<Rightarrow> int" where
  "days_in_month y m =
     (if m = 2 then (if is_leap y then 29 else 28)
      else if m = 4 \<or> m = 6 \<or> m = 9 \<or> m = 11 then 30 else 31)"

definition valid_datetime :: "datetime \<Rightarrow> bool" where
  "valid_datetime t =
     (1 \<le> year t \<and> year t \<le> 9999 \<and> 1 \<le> month t \<and> month t \<le> 12
      \<and> 1 \<le> day t \<and> day t \<le> days_in_month (year t) (month t)
      \<and> 0 \<le> hour t \<and> hour t < 24 \<and> 0 \<le> minute t \<and> minute t < 60
      \<and> 0 \<le> second t \<and> second t < 60
      \<and> 0 \<le> microsecond t \<and> microsecond t < 1000000)"

text \<open>
  \<^verbatim>\<open>t.replace(year=y, month=m, day=d)\<close>: the other fields, the time of day among them,
  are kept; a date that does not exist raises ValueError.
\<close>

definition replace_date :: "datetime \<Rightarrow> int \<Rightarrow> int \<Rightarrow> int \<Rightarrow> exn + datetime" where
  "replace_date t y m d =
     (let t' = t\<lparr>year := y, month := m, day := d\<rparr> in
      if valid_datetime t' then Inr t' else Inl (PyError ''ValueError''))"

text \<open>\<^verbatim>\<open>t - timedelta(seconds=1)\<close>; OverflowError before year 1.\<close>

definition minus_one_second :: "datetime \<Rightarrow> exn + datetime" where
  "minus_one_second t =
     (if 0 < second t then Inr (t\<lparr>second := second t - 1\<rparr>)
      else if 0 < minute t then Inr (t\<lparr>minute := minute t - 1, second := 59\<rparr>)
      else if 0 < hour t then Inr (t\<lparr>hour := hour t - 1, minute := 59, second := 59\<rparr>)
      else if 1 < day t then
        Inr (t\<lparr>day := day t - 1, hour := 23, minute := 59, second := 59\<rparr>)
      else if 1 < month t then
        Inr (t\<lparr>month := month t - 1, day := days_in_month (year t) (month t - 1),
               hour := 23, minute := 59, second := 59\<rparr>)
      else if 1 < year t then
        Inr (t\<lparr>year := year t - 1, month := 12, day := 31,
               hour := 23, minute := 59, second := 59\<rparr>)
      else Inl (PyError ''OverflowError''))"

text \<open>
  The number of microseconds from 0001-01-01T00:00:00 to \<open>t\<close> (the proleptic Gregorian
  ordinal of the date, as \<^verbatim>\<open>datetime\<close> computes it), and the difference \<^verbatim>\<open>a - b\<close> of two
  datetimes as a \<^verbatim>\<open>timedelta\<close> in microseconds.
\<close>

definition days_before_year :: "int \<Rightarrow> int" where
  "days_before_year y = (y - 1) * 365 + (y - 1) div 4 - (y - 1) div 100 + (y - 1) div 400"

definition days_before_month :: "int \<Rightarrow> int \<Rightarrow> int" where
  "days_before_month y m = sum_list (map (days_in_month y) [1 .. m - 1])"

definition to_micros :: "datetime \<Rightarrow> int" where
  "to_micros t =
     ((((days_before_year (year t) + days_before_month (year t) (month t) + day t) * 24
        + hour t) * 60 + minute t) * 60 + second t) * 1000000 + microsecond t"

definition timedelta_micros :: "datetime \<Rightarrow> datetime \<Rightarrow> int" where
  "timedelta_micros a b = to_micros a - to_micros b"

text \<open>
  Lines 155 to 158 of \<^verbatim>\<open>server.py\<close> (138 to 141 of \<^verbatim>\<open>api/index.py\<close>), the value the
  source names \<^verbatim>\<open>end_of_month\<close>:
  \<^verbatim>\<open>
  if now.month == 12:
      end_of_month = now.replace(year=now.year + 1, month=1, day=1) - timedelta(seconds=1)
  else:
      end_of_month = now.replace(month=now.month + 1, day=1) - timedelta(seconds=1)
  \<close>
\<close>

definition end_of_month :: "datetime \<Rightarrow> exn + datetime" where
  "end_of_month now =
     (if month now = 12 then
        bind_exn (replace_date now (year now + 1) 1 1) minus_one_second
      else
        bind_exn (replace_date now (year now) (month now + 1) 1) minus_one_second)"

text \<open>
  What the specification asks of \<^verbatim>\<open>countdown_end\<close>: the last second of the month of
  \<open>now\<close>, 23:59:59 on its last day (stated from the specification's words, to be compared
  with \<open>end_of_month\<close>).
\<close>

definition last_second_of_month :: "datetime \<Rightarrow> datetime" where
  "last_second_of_month now =
     now\<lparr>day := days_in_month (year now) (month now), hour := 23, minute := 59, second := 59\<rparr>"

section \<open>Identity masking (both files)\<close>

text \<open>
  \<^verbatim>\<open>username.encode('utf-8', errors='replace').decode('utf-8')\<close>: the only code points
  of a \<^verbatim>\<open>str\<close> that UTF-8 cannot encode are the surrogates U+D800..U+DFFF; each is
  replaced by \<^verbatim>\<open>?\<close>. A value that is no \<^verbatim>\<open>str\<close> has no \<^verbatim>\<open>encode\<close>: the AttributeError is
  caught by the bare \<^verbatim>\<open>except\<close>, which returns "Unknown".
\<close>

definition replace_surrogate :: "nat \<Rightarrow> nat" where
  "replace_surrogate c = (if 0xD800 \<le> c \<and> c \<le> 0xDFFF then of_char CHR ''?'' else c)"

definition sanitize_username :: "json \<Rightarrow> pystr" where
  "sanitize_username username =
     (case username of
        JStr s \<Rightarrow> map replace_surrogate s
      | _ \<Rightarrow> ascii ''Unknown'')"

text \<open>Python's \<^verbatim>\<open>s[:n]\<close>: a negative \<open>n\<close> counts from the end.\<close>

definition py_prefix :: "'a list \<Rightarrow> int \<Rightarrow> 'a list" where
  "py_prefix s n = (if 0 \<le> n then take (nat n) s else take (nat (int (length s) + n)) s)"

text \<open>Python's \<^verbatim>\<open>"*" * n\<close>: empty when \<open>n\<close> is not positive.\<close>

definition stars :: "int \<Rightarrow> pystr" where
  "stars n = replicate (nat n) (of_char CHR ''*'')"

definition mask_username :: "json \<Rightarrow> int \<Rightarrow> pystr" where
  "mask_username username visible_chars =
     (let username' = sanitize_username username in
      if int (length username') \<le> visible_chars then username'
      else py_prefix username' visible_chars
           @ stars (min (int (length username') - visible_chars) 8))"

section \<open>Configuration and the normalized shapes\<close>

text \<open>
  The static part of \<^verbatim>\<open>API_CONFIG\<close> (the same in both files): prize pool, currency and
  prize tiers \<open>(place, amount)\<close> of each source.
\<close>

definition clash_prizes :: "(int \<times> int) list" where
  "clash_prizes = [(1, 380), (2, 160), (3, 80), (4, 50), (5, 15), (6, 10), (7, 5)]"

definition bsite_prizes :: "(int \<times> int) list" where
  "bsite_prizes = [(1, 400), (2, 200), (3, 100), (4, 50), (5, 30), (6, 15)]"

definition csbattle_prizes :: "(int \<times> int) list" where
  "csbattle_prizes = [(1, 300), (2, 150), (3, 80), (4, 40), (5, 20), (6, 10)]"

definition skinfans_prizes :: "(int \<times> int) list" where
  "skinfans_prizes = [(1, 300), (2, 120), (3, 50), (4, 20), (5, 10)]"

text \<open>
  What the process reads from its environment and the claims depend on
  (\<^verbatim>\<open>CSBATTLE_AFFILIATE_ID\<close>, \<^verbatim>\<open>CSBATTLE_END_DATE\<close>, \<^verbatim>\<open>SKINFANS_TOKEN\<close>; each may be
  set to the empty string), and two functions of the interpreter the process runs on:
  its parser of \<^verbatim>\<open>float(s)\<close> for a \<^verbatim>\<open>str\<close>, and what its \<^verbatim>\<open>sorted\<close> returns for items
  whose keys it cannot order (see \<open>sorted_desc\<close> below).
\<close>

record ctx =
  affiliate_id :: string
  end_date :: string
  token :: string
  float_str :: "pystr \<Rightarrow> pyfloat option"
  unordered_sort :: "string \<Rightarrow> json list \<Rightarrow> json list"

text \<open>
  The value of \<^verbatim>\<open>countdown_end\<close>. For Clash.gg it is the ISO rendering of a datetime the
  code computes. The other sources convert a provider or configuration value inside a
  \<^verbatim>\<open>try\<close> whose bare \<^verbatim>\<open>except\<close> leaves \<^verbatim>\<open>None\<close>; the value converted is kept:
  \<open>EpochMillis v\<close> is \<^verbatim>\<open>fromtimestamp(int(v) / 1000)\<close> (B.site), \<open>EpochSeconds v\<close> is
  \<^verbatim>\<open>fromtimestamp(v)\<close> (Skin.fans), \<open>ConfigDate s\<close> is
  \<^verbatim>\<open>strptime(s, "%Y-%m-%d %H:%M:%S")\<close> (CSBattle), each rendered by \<^verbatim>\<open>isoformat()\<close> if it
  can be computed and \<^verbatim>\<open>None\<close> if not.
\<close>

datatype countdown =
    NoCountdown
  | At datetime
  | EpochMillis json
  | EpochSeconds json
  | ConfigDate string

record entry =
  rank :: json
  username :: json
  avatar :: json
  wagered :: json
  prize :: json

text \<open>
  The dict every adapter returns. \<^verbatim>\<open>message\<close> and \<^verbatim>\<open>last_updated\<close> are keys that some
  paths do not set: \<open>None\<close> is an absent key.
\<close>

record snapshot =
  site_id :: string
  site_name :: string
  users :: "entry list"
  prize_pool :: json
  currency :: string
  prizes :: "(int \<times> int) list"
  countdown_end :: countdown
  status :: json
  message :: "json option"
  last_updated :: "datetime option"

section \<open>The outbound call\<close>

text \<open>
  What the one HTTP request of an adapter comes back with: the client raises (a timeout
  after 30 seconds, a transport error; \<open>msg\<close> is \<^verbatim>\<open>str(e)\<close>), or there is a response with
  a status code, whose \<^verbatim>\<open>response.json()\<close> raises (\<open>Inl msg\<close>) or decodes a document.
\<close>

datatype outcome = Transport_error string | Response int "string + json"

text \<open>\<^verbatim>\<open>response.raise_for_status()\<close> of httpx raises unless the status is 2xx.\<close>

definition raise_for_status :: "int \<Rightarrow> exn + unit" where
  "raise_for_status code =
     (if 200 \<le> code \<and> code < 300 then Inr () else Inl (PyError ''HTTPStatusError''))"

definition json_body :: "string + json \<Rightarrow> exn + json" where
  "json_body body = (case body of Inl msg \<Rightarrow> Inl (PyError msg) | Inr data \<Rightarrow> Inr data)"

text \<open>Decimal rendering of an integer in an f-string.\<close>

fun digits :: "nat \<Rightarrow> string" where
  "digits n =
     (if n < 10 then [char_of (48 + n)]
      else digits (n div 10) @ [char_of (48 + n mod 10)])"

definition show_int :: "int \<Rightarrow> string" where
  "show_int i = (if i < 0 then CHR ''-'' # digits (nat (- i)) else digits (nat i))"

text \<open>
  \<^verbatim>\<open>str(e)\<close>. Starlette renders its \<^verbatim>\<open>HTTPException\<close> as the status code, a colon and the
  detail.
\<close>

fun exn_str :: "exn \<Rightarrow> string" where
  "exn_str (PyError msg) = msg"
| "exn_str (HTTPException code detail) = show_int code @ '': '' @ detail"

section \<open>Source adapters\<close>

text \<open>
  The inner loop over \<^verbatim>\<open>config["prizes"]\<close>: the amount of the first tier whose place is
  the rank, 0 if there is none.
\<close>

fun tier_prize :: "(int \<times> int) list \<Rightarrow> int \<Rightarrow> int" where
  "tier_prize [] r = 0"
| "tier_prize (p # ps) r = (if fst p = r then snd p else tier_prize ps r)"

text \<open>
  A list of keys in which no key is smaller than the one before it.
\<close>

fun no_descent :: "json list \<Rightarrow> bool" where
  "no_descent (a # b # vs) = (\<not> py_lt b a \<and> no_descent (b # vs))"
| "no_descent vs = True"

text \<open>
  \<^verbatim>\<open>sorted(data, key=lambda x: x.get(k, 0), reverse=True)\<close>. The keys are computed first,
  for every element (AttributeError on an element that is no dict). With
  \<^verbatim>\<open>reverse=True\<close> Python reverses the list, sorts it stably in ascending order and
  reverses the result. If some key is not a number the \<^verbatim>\<open>try\<close> block ends in a
  TypeError: either a comparison raises it, or the keys can be ordered (a single element,
  or strings only) and \<^verbatim>\<open>round\<close> raises it on the first user; the model raises it here.

  Keys that are numbers compare by value, and no comparison raises. When none of them is
  NaN they are totally ordered and the result is the one of every stable sort. When some
  key is NaN, \<^verbatim>\<open>a < b\<close> is no order any more and Python does not define the result. CPython
  starts by taking the longest run at the head of the (reversed) list in which no key is
  smaller than the one before it; when that run is the whole list it moves nothing, and
  the result is the input. What it returns for the other lists depends on its version:
  that is the parameter \<open>unordered_sort\<close> of the context, about which nothing is assumed.
\<close>

definition sorted_desc :: "ctx \<Rightarrow> string \<Rightarrow> json \<Rightarrow> exn + json list" where
  "sorted_desc c k data =
     bind_exn (py_iter data) (\<lambda>xs.
     bind_exn (traverse (\<lambda>x. py_get x k (JInt 0)) xs) (\<lambda>keys.
     if \<not> list_all is_number keys then Inl (PyError ''TypeError'')
     else if list_all (\<lambda>v. ord_val v \<noteq> None) keys
     then Inr (rev (map snd (sort_key fst (rev (zip (map (\<lambda>v. the (ord_val v)) keys) xs)))))
     else if no_descent (rev keys) then Inr xs
     else Inr (unordered_sort c k xs)))"

subsection \<open>Clash.gg\<close>

definition clash_entry :: "nat \<times> json \<Rightarrow> exn + entry" where
  "clash_entry iu =
     (case iu of (i, user) \<Rightarrow>
        bind_exn (py_get user ''name'' (JStr (ascii ''Unknown''))) (\<lambda>name.
        bind_exn (py_get user ''avatar'' (JStr [])) (\<lambda>av.
        bind_exn (py_get user ''wagered'' (JInt 0)) (\<lambda>w.
        bind_exn (py_round2 w) (\<lambda>wr.
        Inr \<lparr>rank = JInt (int i + 1), username = JStr (mask_username name 2),
             avatar = av, wagered = wr,
             prize = JInt (tier_prize clash_prizes (int i + 1))\<rparr>)))))"

text \<open>The body of the \<^verbatim>\<open>try\<close> block of \<^verbatim>\<open>fetch_clash_data\<close>, the same in both files.\<close>

definition clash_try :: "ctx \<Rightarrow> datetime \<Rightarrow> outcome \<Rightarrow> exn + snapshot" where
  "clash_try c now out =
     (case out of
        Transport_error msg \<Rightarrow> Inl (PyError msg)
      | Response code body \<Rightarrow>
          bind_exn (raise_for_status code) (\<lambda>_.
          bind_exn (json_body body) (\<lambda>data.
          bind_exn (sorted_desc c ''wagered'' data) (\<lambda>sorted_users.
          bind_exn (traverse clash_entry (enumerate 0 (take 10 sorted_users))) (\<lambda>us.
          bind_exn (end_of_month now) (\<lambda>eom.
          Inr \<lparr>site_id = ''clash'', site_name = ''Clash.gg'', users = us,
               prize_pool = JInt 700, currency = ''gems'', prizes = clash_prizes,
               countdown_end = At eom, status = JStr (ascii ''active''),
               message = None, last_updated = None\<rparr>))))))"

text \<open>\<^verbatim>\<open>server.py\<close>: every exception of the block becomes an HTTPException 500.\<close>

definition fetch_clash_data :: "ctx \<Rightarrow> datetime \<Rightarrow> outcome \<Rightarrow> exn + snapshot" where
  "fetch_clash_data c now out =
     (case clash_try c now out of
        Inr s \<Rightarrow> Inr s
      | Inl e \<Rightarrow> Inl (HTTPException 500 (''Failed to fetch Clash.gg data: '' @ exn_str e)))"

text \<open>
  \<^verbatim>\<open>api/index.py\<close>: every exception of the block becomes an error snapshot, stamped with
  a later reading \<open>now'\<close> of the clock.
\<close>

definition index_fetch_clash_data ::
  "ctx \<Rightarrow> datetime \<Rightarrow> datetime \<Rightarrow> outcome \<Rightarrow> exn + snapshot" where
  "index_fetch_clash_data c now now' out =
     (case clash_try c now out of
        Inr s \<Rightarrow> Inr (s\<lparr>last_updated := Some now\<rparr>)
      | Inl e \<Rightarrow>
          Inr \<lparr>site_id = ''clash'', site_name = ''Clash.gg'', users = [],
               prize_pool = JInt 700, currency = ''gems'', prizes = clash_prizes,
               countdown_end = NoCountdown, status = JStr (ascii ''error''),
               message = Some (JStr (ascii (exn_str e))), last_updated = Some now'\<rparr>)"

subsection \<open>B.site\<close>

text \<open>
  \<^verbatim>\<open>prize_lookup = {r["place"]: r["winnings"] for r in leaderboard_rewards}\<close>: the items in
  the order they are stored; a list or a dict cannot be a key (TypeError). A later item
  with an equal key replaces an earlier one, and keys are equal as Python compares them:
  finite numbers (bools among them) by value, the rest when they are the same value. (NaN
  is equal to no number and not to itself, but every NaN of a decoded document is one
  object, the constant of the decoder, and a dict finds a key that is the same object.)
\<close>

fun hashable :: "json \<Rightarrow> bool" where
  "hashable (JArr xs) = False"
| "hashable (JObj kvs) = False"
| "hashable _ = True"

definition reward_item :: "json \<Rightarrow> exn + (json \<times> json)" where
  "reward_item r =
     bind_exn (py_item r ''place'') (\<lambda>k.
     bind_exn (py_item r ''winnings'') (\<lambda>v.
     if hashable k then Inr (k, v) else Inl (PyError ''TypeError'')))"

definition py_eq :: "json \<Rightarrow> json \<Rightarrow> bool" where
  "py_eq a b =
     (case (num_val a, num_val b) of
        (Some x, Some y) \<Rightarrow> x = y
      | (None, None) \<Rightarrow> a = b
      | _ \<Rightarrow> False)"

text \<open>\<^verbatim>\<open>prize_lookup.get(rank, 0)\<close>: TypeError if \<^verbatim>\<open>rank\<close> cannot be hashed.\<close>

definition dict_get :: "(json \<times> json) list \<Rightarrow> json \<Rightarrow> json \<Rightarrow> exn + json" where
  "dict_get items k d =
     (if hashable k then
        Inr (case find (\<lambda>kv. py_eq (fst kv) k) (rev items) of
               Some kv \<Rightarrow> snd kv
             | None \<Rightarrow> d)
      else Inl (PyError ''TypeError''))"

definition bsite_entry :: "(json \<times> json) list \<Rightarrow> json \<Rightarrow> exn + entry" where
  "bsite_entry prize_lookup user =
     bind_exn (py_get user ''rank'' (JInt 0)) (\<lambda>rk.
     bind_exn (py_get user ''username'' (JStr (ascii ''Unknown''))) (\<lambda>un.
     bind_exn (py_get user ''avatar'' (JStr [])) (\<lambda>av.
     bind_exn (py_get user ''wager'' (JInt 0)) (\<lambda>w.
     bind_exn (py_round2 w) (\<lambda>wr.
     bind_exn (dict_get prize_lookup rk (JInt 0)) (\<lambda>pz.
     Inr \<lparr>rank = rk, username = un, avatar = av, wagered = wr, prize = pz\<rparr>))))))"

text \<open>
  From \<^verbatim>\<open>wagers = data.get("wagers", [])\<close> to the \<^verbatim>\<open>return\<close> of the normal path, the same
  in both files.
\<close>

definition bsite_normalize :: "json \<Rightarrow> exn + snapshot" where
  "bsite_normalize data =
     bind_exn (py_get data ''wagers'' (JArr [])) (\<lambda>wagers.
     bind_exn (py_get data ''leaderboard'' (JObj [])) (\<lambda>lb.
     bind_exn (py_get lb ''leaderboardRewards'' (JArr [])) (\<lambda>leaderboard_rewards.
     bind_exn (py_get data ''currentEntry'' (JObj [])) (\<lambda>current_entry.
     bind_exn (py_iter leaderboard_rewards) (\<lambda>rs.
     bind_exn (traverse reward_item rs) (\<lambda>prize_lookup.
     bind_exn (py_slice10 wagers) (\<lambda>ws.
     bind_exn (traverse (bsite_entry prize_lookup) ws) (\<lambda>us.
     bind_exn (py_get current_entry ''end'' JNull) (\<lambda>e.
     bind_exn (py_get lb ''config'' (JObj [])) (\<lambda>cfg.
     bind_exn (py_get cfg ''value'' (JInt 800)) (\<lambda>pool.
     bind_exn (py_get current_entry ''status'' (JStr (ascii ''active''))) (\<lambda>st.
     Inr \<lparr>site_id = ''bsite'', site_name = ''B.site'', users = us,
          prize_pool = pool, currency = ''usd'', prizes = bsite_prizes,
          countdown_end = (if truthy e then EpochMillis e else NoCountdown),
          status = st, message = None, last_updated = None\<rparr>))))))))))))"

definition bsite_static :: "json \<Rightarrow> json \<Rightarrow> snapshot" where
  "bsite_static st msg =
     \<lparr>site_id = ''bsite'', site_name = ''B.site'', users = [],
      prize_pool = JInt 800, currency = ''usd'', prizes = bsite_prizes,
      countdown_end = NoCountdown, status = st,
      message = Some msg, last_updated = None\<rparr>"

text \<open>
  The \<^verbatim>\<open>try\<close> block of \<^verbatim>\<open>fetch_bsite_data\<close> in \<^verbatim>\<open>server.py\<close>. There is no
  \<^verbatim>\<open>raise_for_status\<close>: the body is decoded first, a maintenance flag returns at once,
  then a status other than 200 and an error flag each raise an HTTPException.
\<close>

definition bsite_try :: "outcome \<Rightarrow> exn + snapshot" where
  "bsite_try out =
     (case out of
        Transport_error msg \<Rightarrow> Inl (PyError msg)
      | Response code body \<Rightarrow>
          bind_exn (json_body body) (\<lambda>data.
          bind_exn (py_get data ''maintenance'' JNull) (\<lambda>maint.
          if truthy maint then
            bind_exn (py_get data ''msg'' (JStr (ascii
                ''B.site is currently under maintenance. Please check back later.''))) (\<lambda>msg.
            Inr (bsite_static (JStr (ascii ''maintenance'')) msg))
          else if code \<noteq> 200 then
            Inl (HTTPException code (''B.site API error: '' @ show_int code))
          else
            bind_exn (py_get data ''error'' JNull) (\<lambda>err.
            if truthy err \<and> \<not> truthy maint then
              Inl (HTTPException 500 ''B.site API returned an error'')
            else bsite_normalize data))))"

text \<open>
  \<^verbatim>\<open>server.py\<close>: \<^verbatim>\<open>except HTTPException: raise\<close> comes first, every other exception
  becomes the error snapshot with a fixed message.
\<close>

definition fetch_bsite_data :: "outcome \<Rightarrow> exn + snapshot" where
  "fetch_bsite_data out =
     (case bsite_try out of
        Inr s \<Rightarrow> Inr s
      | Inl (HTTPException code detail) \<Rightarrow> Inl (HTTPException code detail)
      | Inl (PyError msg) \<Rightarrow>
          Inr (bsite_static (JStr (ascii ''error''))
                (JStr (ascii ''B.site is temporarily unavailable. Please try again later.''))))"

text \<open>\<^verbatim>\<open>api/index.py\<close>: no check of the status code or of the error flag.\<close>

definition index_bsite_try :: "datetime \<Rightarrow> outcome \<Rightarrow> exn + snapshot" where
  "index_bsite_try now out =
     (case out of
        Transport_error msg \<Rightarrow> Inl (PyError msg)
      | Response code body \<Rightarrow>
          bind_exn (json_body body) (\<lambda>data.
          bind_exn (py_get data ''maintenance'' JNull) (\<lambda>maint.
          if truthy maint then
            bind_exn (py_get data ''msg'' (JStr (ascii
                ''B.site is currently under maintenance.''))) (\<lambda>msg.
            Inr ((bsite_static (JStr (ascii ''maintenance'')) msg)\<lparr>last_updated := Some now\<rparr>))
          else
            bind_exn (bsite_normalize data) (\<lambda>s. Inr (s\<lparr>last_updated := Some now\<rparr>)))))"

definition index_fetch_bsite_data :: "datetime \<Rightarrow> outcome \<Rightarrow> exn + snapshot" where
  "index_fetch_bsite_data now out =
     (case index_bsite_try now out of
        Inr s \<Rightarrow> Inr s
      | Inl e \<Rightarrow>
          Inr ((bsite_static (JStr (ascii ''error''))
                 (JStr (ascii ''B.site is temporarily unavailable.'')))\<lparr>last_updated := Some now\<rparr>))"

subsection \<open>CSBattle\<close>

definition csbattle_entry :: "nat \<times> json \<Rightarrow> exn + entry" where
  "csbattle_entry iu =
     (case iu of (i, user) \<Rightarrow>
        bind_exn (py_get user ''username'' (JStr (ascii ''Unknown''))) (\<lambda>name.
        bind_exn (py_get user ''avatar'' (JStr [])) (\<lambda>av.
        bind_exn (py_get user ''wager'' (JInt 0)) (\<lambda>w.
        bind_exn (py_round2 w) (\<lambda>wr.
        Inr \<lparr>rank = JInt (int i + 1), username = JStr (sanitize_username name),
             avatar = av, wagered = wr,
             prize = JInt (tier_prize csbattle_prizes (int i + 1))\<rparr>)))))"

definition csbattle_static :: "string \<Rightarrow> string \<Rightarrow> snapshot" where
  "csbattle_static st msg =
     \<lparr>site_id = ''csbattle'', site_name = ''CSBattle'', users = [],
      prize_pool = JInt 600, currency = ''coins'', prizes = csbattle_prizes,
      countdown_end = NoCountdown, status = JStr (ascii st),
      message = Some (JStr (ascii msg)), last_updated = None\<rparr>"

text \<open>
  The \<^verbatim>\<open>try\<close> block of \<^verbatim>\<open>fetch_csbattle_data\<close>, the same in both files.
  \<^verbatim>\<open>users_data = data.get("users", data) if isinstance(data, dict) else data\<close>.
\<close>

definition csbattle_try :: "ctx \<Rightarrow> outcome \<Rightarrow> exn + snapshot" where
  "csbattle_try c out =
     (case out of
        Transport_error msg \<Rightarrow> Inl (PyError msg)
      | Response code body \<Rightarrow>
          bind_exn (raise_for_status code) (\<lambda>_.
          bind_exn (json_body body) (\<lambda>data.
          bind_exn (case data of JObj kvs \<Rightarrow> py_get data ''users'' data | _ \<Rightarrow> Inr data)
            (\<lambda>users_data.
          bind_exn (sorted_desc c ''wager'' users_data) (\<lambda>sorted_users.
          bind_exn (traverse csbattle_entry (enumerate 0 (take 10 sorted_users))) (\<lambda>us.
          Inr \<lparr>site_id = ''csbattle'', site_name = ''CSBattle'', users = us,
               prize_pool = JInt 600, currency = ''coins'', prizes = csbattle_prizes,
               countdown_end = ConfigDate (end_date c), status = JStr (ascii ''active''),
               message = None, last_updated = None\<rparr>))))))"

text \<open>\<^verbatim>\<open>server.py\<close>: without an affiliate id no request is made.\<close>

definition fetch_csbattle_data :: "ctx \<Rightarrow> outcome \<Rightarrow> exn + snapshot" where
  "fetch_csbattle_data c out =
     (if affiliate_id c = [] then
        Inr (csbattle_static ''not_configured'' ''CSBattle API not configured.'')
      else
        (case csbattle_try c out of
           Inr s \<Rightarrow> Inr s
         | Inl e \<Rightarrow> Inr (csbattle_static ''error'' (exn_str e))))"

definition index_fetch_csbattle_data :: "ctx \<Rightarrow> datetime \<Rightarrow> outcome \<Rightarrow> exn + snapshot" where
  "index_fetch_csbattle_data c now out =
     (case csbattle_try c out of
        Inr s \<Rightarrow> Inr (s\<lparr>last_updated := Some now\<rparr>)
      | Inl e \<Rightarrow> Inr ((csbattle_static ''error'' (exn_str e))\<lparr>last_updated := Some now\<rparr>))"

subsection \<open>Skin.fans\<close>

text \<open>
  One round of the loop over \<^verbatim>\<open>enumerate(places[:10])\<close>: the entry appended, if any. The
  rank is \<^verbatim>\<open>i + 1\<close>, the position of the place in the raw list.
\<close>

definition skinfans_place :: "ctx \<Rightarrow> nat \<times> json \<Rightarrow> exn + entry list" where
  "skinfans_place c ip =
     (case ip of (i, place) \<Rightarrow>
        bind_exn (py_get place ''payout'' (JInt 0)) (\<lambda>p.
        bind_exn (py_float (float_str c) p) (\<lambda>pz.
        bind_exn (py_get place ''user'' (JObj [])) (\<lambda>user_data.
        if truthy user_data then
          bind_exn (py_get user_data ''name'' (JStr (ascii ''Unknown''))) (\<lambda>name.
          bind_exn (py_get user_data ''avatar'' (JStr [])) (\<lambda>av.
          bind_exn (py_get user_data ''wagered'' (JInt 0)) (\<lambda>w.
          bind_exn (py_float (float_str c) w) (\<lambda>wf.
          Inr [\<lparr>rank = JInt (int i + 1), username = JStr (mask_username name 2),
                avatar = av, wagered = JFloat (round2f wf), prize = JFloat pz\<rparr>]))))
        else Inr []))))"

definition skinfans_static :: "string \<Rightarrow> string \<Rightarrow> snapshot" where
  "skinfans_static st msg =
     \<lparr>site_id = ''skinfans'', site_name = ''Skin.fans'', users = [],
      prize_pool = JInt 500, currency = ''coins'', prizes = skinfans_prizes,
      countdown_end = NoCountdown, status = JStr (ascii st),
      message = Some (JStr (ascii msg)), last_updated = None\<rparr>"

text \<open>
  \<^verbatim>\<open>response_data = data.get("response", {}).get("data", data)\<close> and
  \<^verbatim>\<open>race = response_data.get("race", {})\<close>.
\<close>

definition skinfans_race :: "json \<Rightarrow> exn + json" where
  "skinfans_race data =
     bind_exn (py_get data ''response'' (JObj [])) (\<lambda>resp.
     bind_exn (py_get resp ''data'' data) (\<lambda>response_data.
     py_get response_data ''race'' (JObj [])))"

text \<open>The places the loop visits: \<^verbatim>\<open>race.get("places", [])[:10]\<close>.\<close>

definition skinfans_places :: "json \<Rightarrow> exn + json list" where
  "skinfans_places race = bind_exn (py_get race ''places'' (JArr [])) py_slice10"

text \<open>The \<^verbatim>\<open>try\<close> block of \<^verbatim>\<open>fetch_skinfans_data\<close>, the same in both files.\<close>

definition skinfans_try :: "ctx \<Rightarrow> outcome \<Rightarrow> exn + snapshot" where
  "skinfans_try c out =
     (case out of
        Transport_error msg \<Rightarrow> Inl (PyError msg)
      | Response code body \<Rightarrow>
          bind_exn (raise_for_status code) (\<lambda>_.
          bind_exn (json_body body) (\<lambda>data.
          bind_exn (skinfans_race data) (\<lambda>race.
          bind_exn (skinfans_places race) (\<lambda>ps.
          bind_exn (traverse (skinfans_place c) (enumerate 0 ps)) (\<lambda>uss.
          bind_exn (py_get race ''ends_at'' JNull) (\<lambda>ends_at.
          bind_exn (py_get race ''payout'' (JInt 500)) (\<lambda>p.
          bind_exn (py_float (float_str c) p) (\<lambda>pool.
          bind_exn (py_get race ''active'' JNull) (\<lambda>active.
          Inr \<lparr>site_id = ''skinfans'', site_name = ''Skin.fans'', users = concat uss,
               prize_pool = JFloat pool, currency = ''coins'', prizes = skinfans_prizes,
               countdown_end = (if truthy ends_at then EpochSeconds ends_at else NoCountdown),
               status = JStr (ascii (if truthy active then ''active'' else ''ended'')),
               message = None, last_updated = None\<rparr>))))))))))"

text \<open>\<^verbatim>\<open>server.py\<close>: without a token no request is made.\<close>

definition fetch_skinfans_data :: "ctx \<Rightarrow> outcome \<Rightarrow> exn + snapshot" where
  "fetch_skinfans_data c out =
     (if token c = [] then
        Inr (skinfans_static ''not_configured'' ''Skin.fans API not configured.'')
      else
        (case skinfans_try c out of
           Inr s \<Rightarrow> Inr s
         | Inl e \<Rightarrow> Inr (skinfans_static ''error'' (exn_str e))))"

definition index_fetch_skinfans_data :: "ctx \<Rightarrow> datetime \<Rightarrow> outcome \<Rightarrow> exn + snapshot" where
  "index_fetch_skinfans_data c now out =
     (case skinfans_try c out of
        Inr s \<Rightarrow> Inr (s\<lparr>last_updated := Some now\<rparr>)
      | Inl e \<Rightarrow> Inr ((skinfans_static ''error'' (exn_str e))\<lparr>last_updated := Some now\<rparr>))"

section \<open>The cache and the facade of \<^verbatim>\<open>server.py\<close>\<close>

text \<open>
  What the outside world supplies to one call of an adapter: the readings of the clock
  it makes (\<^verbatim>\<open>datetime.now(timezone.utc)\<close>; only the Clash.gg adapter of
  \<^verbatim>\<open>api/index.py\<close> reads it twice) and the outcome of its HTTP request.
\<close>

record upstream =
  clock :: datetime
  clock_later :: datetime
  reply :: outcome

text \<open>
  A document of the collection \<^verbatim>\<open>leaderboard_cache\<close>, keyed by \<^verbatim>\<open>site_id\<close>. The code
  writes \<^verbatim>\<open>last_updated\<close> with \<^verbatim>\<open>isoformat()\<close> and reads it with \<^verbatim>\<open>fromisoformat\<close>.
\<close>

record cached =
  c_data :: snapshot
  c_last_updated :: datetime

text \<open>
  The state a request runs in: \<open>db\<close> is the collection, \<open>None\<close> when \<^verbatim>\<open>MONGO_URL\<close> is not
  set (\<^verbatim>\<open>db is None\<close>). \<open>fetched\<close> is no variable of the source: it records, in order, the
  sources whose adapter has been called, that is the requests sent upstream. The store is
  taken to answer every operation (no exception of the driver is modelled).
\<close>

record sys =
  db :: "(string \<rightharpoonup> cached) option"
  fetched :: "string list"

definition valid_sites :: "string list" where
  "valid_sites = [''clash'', ''bsite'', ''csbattle'', ''skinfans'']"

text \<open>The dict \<^verbatim>\<open>fetch_functions\<close> of \<^verbatim>\<open>get_cached_or_fetch\<close>.\<close>

definition fetch_functions :: "ctx \<Rightarrow> string \<Rightarrow> (upstream \<Rightarrow> exn + snapshot) option" where
  "fetch_functions c =
     map_of [(''clash'', \<lambda>u. fetch_clash_data c (clock u) (reply u)),
             (''bsite'', \<lambda>u. fetch_bsite_data (reply u)),
             (''csbattle'', \<lambda>u. fetch_csbattle_data c (reply u)),
             (''skinfans'', \<lambda>u. fetch_skinfans_data c (reply u))]"

text \<open>\<^verbatim>\<open>timedelta(minutes=CACHE_DURATION_MINUTES)\<close>, in microseconds.\<close>

definition cache_duration :: int where
  "cache_duration = 5 * 60 * 1000000"

text \<open>
  The first half of \<^verbatim>\<open>get_cached_or_fetch\<close>: the cached data, with \<^verbatim>\<open>last_updated\<close> set
  from the record, if the store is connected, holds a record for the site and
  \<^verbatim>\<open>now - last_updated < timedelta(minutes=5)\<close>.
\<close>

definition cache_lookup :: "sys \<Rightarrow> datetime \<Rightarrow> string \<Rightarrow> snapshot option" where
  "cache_lookup st now sid =
     (case db st of
        None \<Rightarrow> None
      | Some store \<Rightarrow>
          (case store sid of
             None \<Rightarrow> None
           | Some r \<Rightarrow>
               if timedelta_micros now (c_last_updated r) < cache_duration
               then Some ((c_data r)\<lparr>last_updated := Some (c_last_updated r)\<rparr>)
               else None))"

text \<open>\<^verbatim>\<open>update_one({"site_id": site_id}, {"$set": ...}, upsert=True)\<close>, if connected.\<close>

definition cache_upsert :: "string \<Rightarrow> snapshot \<Rightarrow> datetime \<Rightarrow> sys \<Rightarrow> sys" where
  "cache_upsert sid d now st =
     (case db st of
        None \<Rightarrow> st
      | Some store \<Rightarrow>
          st\<lparr>db := Some (store(sid \<mapsto> \<lparr>c_data = d, c_last_updated = now\<rparr>))\<rparr>)"

text \<open>\<^verbatim>\<open>delete_one({"site_id": site_id})\<close>, if connected.\<close>

definition cache_delete :: "string \<Rightarrow> sys \<Rightarrow> sys" where
  "cache_delete sid st =
     (case db st of
        None \<Rightarrow> st
      | Some store \<Rightarrow> st\<lparr>db := Some (store(sid := None))\<rparr>)"

text \<open>
  \<^verbatim>\<open>get_cached_or_fetch(site_id)\<close>, with \<open>now\<close> its reading of the clock and \<open>up\<close> what
  the adapter meets if it is called. The result is the value returned or the exception
  raised, and the state after the call.
\<close>

definition get_cached_or_fetch ::
  "ctx \<Rightarrow> datetime \<Rightarrow> upstream \<Rightarrow> string \<Rightarrow> sys \<Rightarrow> (exn + snapshot) \<times> sys" where
  "get_cached_or_fetch c now up sid st =
     (case cache_lookup st now sid of
        Some d \<Rightarrow> (Inr d, st)
      | None \<Rightarrow>
          (case fetch_functions c sid of
             None \<Rightarrow> (Inl (HTTPException 404 (''Unknown site: '' @ sid)), st)
           | Some fetch \<Rightarrow>
               (let st' = st\<lparr>fetched := fetched st @ [sid]\<rparr> in
                case fetch up of
                  Inl e \<Rightarrow> (Inl e, st')
                | Inr d \<Rightarrow>
                    (let d' = d\<lparr>last_updated := Some now\<rparr>
                     in (Inr d', cache_upsert sid d' now st')))))"

definition invalid_site :: exn where
  "invalid_site =
     HTTPException 404 ''Invalid site. Valid sites: clash, bsite, csbattle, skinfans''"

text \<open>\<^verbatim>\<open>GET /api/leaderboard/{site_id}\<close>.\<close>

definition get_leaderboard ::
  "ctx \<Rightarrow> datetime \<Rightarrow> upstream \<Rightarrow> string \<Rightarrow> sys \<Rightarrow> (exn + snapshot) \<times> sys" where
  "get_leaderboard c now up sid st =
     (if sid \<notin> set valid_sites then (Inl invalid_site, st)
      else get_cached_or_fetch c now up sid st)"

text \<open>
  \<^verbatim>\<open>POST /api/leaderboard/refresh/{site_id}\<close>; the value returned is the message and the
  data.
\<close>

definition refresh_leaderboard ::
  "ctx \<Rightarrow> datetime \<Rightarrow> upstream \<Rightarrow> string \<Rightarrow> sys \<Rightarrow> (exn + string \<times> snapshot) \<times> sys" where
  "refresh_leaderboard c now up sid st =
     (if sid \<notin> set valid_sites then (Inl invalid_site, st)
      else
        (case get_cached_or_fetch c now up sid (cache_delete sid st) of
           (Inl e, st') \<Rightarrow> (Inl e, st')
         | (Inr d, st') \<Rightarrow> (Inr (''Refreshed '' @ sid @ '' leaderboard'', d), st')))"

text \<open>
  An entry of the dict \<^verbatim>\<open>get_all_leaderboards\<close> returns: the data of the site, or the
  record \<^verbatim>\<open>{"site_id": site_id, "error": str(e), "status": "error"}\<close>.
\<close>

record failure =
  f_site_id :: string
  f_error :: string
  f_status :: string

datatype board = Board snapshot | Failed failure

text \<open>
  The loop of \<^verbatim>\<open>get_all_leaderboards\<close>: \<open>ins sid\<close> is the clock reading of
  \<^verbatim>\<open>get_cached_or_fetch\<close> and the upstream of the adapter in the round of \<open>sid\<close>. The
  \<^verbatim>\<open>except Exception\<close> of the round catches the HTTPException too.
\<close>

fun resolve_each ::
  "ctx \<Rightarrow> (string \<Rightarrow> datetime \<times> upstream) \<Rightarrow> string list \<Rightarrow> sys
     \<Rightarrow> (string \<times> board) list \<times> sys" where
  "resolve_each c ins [] st = ([], st)"
| "resolve_each c ins (sid # sids) st =
     (case get_cached_or_fetch c (fst (ins sid)) (snd (ins sid)) sid st of
        (r, st') \<Rightarrow>
          (case resolve_each c ins sids st' of
             (rs, st'') \<Rightarrow>
               ((sid, (case r of
                         Inr d \<Rightarrow> Board d
                       | Inl e \<Rightarrow>
                           Failed \<lparr>f_site_id = sid, f_error = exn_str e,
                                   f_status = ''error''\<rparr>)) # rs,
                st'')))"

text \<open>
  \<^verbatim>\<open>GET /api/leaderboards\<close>. The result is a sum so that "it does not raise" is a property
  to prove; the items of the dict are in the order they are stored.
\<close>

definition get_all_leaderboards ::
  "ctx \<Rightarrow> (string \<Rightarrow> datetime \<times> upstream) \<Rightarrow> sys
     \<Rightarrow> (exn + (string \<times> board) list) \<times> sys" where
  "get_all_leaderboards c ins st =
     (case resolve_each c ins valid_sites st of (rs, st') \<Rightarrow> (Inr rs, st'))"

section \<open>The facade of \<^verbatim>\<open>api/index.py\<close>\<close>

text \<open>The adapters of \<^verbatim>\<open>api/index.py\<close> by site, in the order \<^verbatim>\<open>get_all_leaderboards\<close> lists them.\<close>

definition index_fetchers :: "ctx \<Rightarrow> (string \<times> (upstream \<Rightarrow> exn + snapshot)) list" where
  "index_fetchers c =
     [(''clash'', \<lambda>u. index_fetch_clash_data c (clock u) (clock_later u) (reply u)),
      (''bsite'', \<lambda>u. index_fetch_bsite_data (clock u) (reply u)),
      (''csbattle'', \<lambda>u. index_fetch_csbattle_data c (clock u) (reply u)),
      (''skinfans'', \<lambda>u. index_fetch_skinfans_data c (clock u) (reply u))]"

text \<open>\<^verbatim>\<open>GET /api/leaderboard/{site_id}\<close>: no cache, the adapter is called every time.\<close>

definition index_get_leaderboard :: "ctx \<Rightarrow> upstream \<Rightarrow> string \<Rightarrow> exn + snapshot" where
  "index_get_leaderboard c up sid =
     (if sid \<notin> set valid_sites then Inl invalid_site
      else (case map_of (index_fetchers c) sid of
              Some fetch \<Rightarrow> fetch up
            | None \<Rightarrow> Inl (PyError ''KeyError'')))"

text \<open>\<^verbatim>\<open>GET /api/leaderboards\<close>: \<open>ins sid\<close> is the upstream of the adapter of \<open>sid\<close>.\<close>

definition index_get_all_leaderboards ::
  "ctx \<Rightarrow> (string \<Rightarrow> upstream) \<Rightarrow> exn + (string \<times> board) list" where
  "index_get_all_leaderboards c ins =
     Inr (map (\<lambda>sf.
            (fst sf, (case snd sf (ins (fst sf)) of
                        Inr d \<Rightarrow> Board d
                      | Inl e \<Rightarrow> Failed \<lparr>f_site_id = fst sf, f_error = exn_str e,
                                           f_status = ''error''\<rparr>)))
          (index_fetchers c))"

section \<open>Notions used to state the properties\<close>

text \<open>
  A raw place of Skin.fans has a user object when \<^verbatim>\<open>place.get("user", {})\<close> is truthy: the
  key is present and its value is neither \<^verbatim>\<open>null\<close> nor empty.
\<close>

definition has_user :: "json \<Rightarrow> bool" where
  "has_user place =
     (case py_get place ''user'' (JObj []) of Inr u \<Rightarrow> truthy u | Inl e \<Rightarrow> False)"

text \<open>Example inputs: a configured process, and documents as the providers send them.\<close>

definition ctx0 :: ctx where
  "ctx0 = \<lparr>affiliate_id = ''a1'', end_date = ''2026-02-18 20:30:00'', token = ''t1'',
           float_str = (\<lambda>s. None), unordered_sort = (\<lambda>k xs. xs)\<rparr>"

definition place_of :: "int \<Rightarrow> string \<Rightarrow> int \<Rightarrow> json" where
  "place_of payout name w =
     JObj [(''payout'', JInt payout),
           (''user'', JObj [(''name'', JStr (ascii name)), (''wagered'', JInt w)])]"

definition race_doc :: "json list \<Rightarrow> json" where
  "race_doc places =
     JObj [(''response'', JObj [(''data'', JObj [(''race'',
       JObj [(''places'', JArr places), (''active'', JBool True)])])])]"

text \<open>
  The wagered amount of a raw entry of Clash.gg in the order of the numbers (0 when the key
  is missing); \<open>None\<close> for an entry that is no JSON object or whose amount is no number or
  is NaN.
\<close>

definition wagered_key :: "json \<Rightarrow> xnum option" where
  "wagered_key e = (case py_get e ''wagered'' (JInt 0) of Inr v \<Rightarrow> ord_val v | Inl x \<Rightarrow> None)"

text \<open>What \<^verbatim>\<open>round(x, 2)\<close> makes of an amount: an infinity stays.\<close>

fun round2x :: "xnum \<Rightarrow> xnum" where
  "round2x (Number q) = Number (round2 q)"
| "round2x x = x"

text \<open>
  The prizes of the ranks 1 to 10 of Clash.gg, as \<^verbatim>\<open>API_CONFIG\<close> lists them: seven tiers,
  nothing below.
\<close>

definition clash_rank_prizes :: "json list" where
  "clash_rank_prizes =
     [JInt 380, JInt 160, JInt 80, JInt 50, JInt 15, JInt 10, JInt 5, JInt 0, JInt 0, JInt 0]"

text \<open>The wagers the B.site adapter visits: \<^verbatim>\<open>data.get("wagers", [])[:10]\<close>.\<close>

definition bsite_wagers :: "json \<Rightarrow> exn + json list" where
  "bsite_wagers data = bind_exn (py_get data ''wagers'' (JArr [])) py_slice10"

text \<open>
  The raw entries of Clash.gg in the order \<^verbatim>\<open>sorted(..., reverse=True)\<close> gives them when
  every amount is a number other than NaN.
\<close>

definition by_wagered_desc :: "json list \<Rightarrow> json list" where
  "by_wagered_desc es =
     rev (map snd (sort_key fst (rev (zip (map (\<lambda>e. the (wagered_key e)) es) es))))"

text \<open>More example inputs: a clock reading, and 15 raw entries with distinct amounts.\<close>

definition now0 :: datetime where
  "now0 = \<lparr>year = 2026, month = 11, day = 4, hour = 14, minute = 23, second = 5,
           microsecond = 0\<rparr>"

definition clash_entries15 :: "json list" where
  "clash_entries15 =
     map (\<lambda>i. JObj [(''name'', JStr (ascii ''player'')), (''wagered'', JInt (100 * i))])
       [1 .. 15]"

text \<open>Three raw entries of Clash.gg with the amounts 3, NaN and 7.\<close>

definition clash_entries_nan :: "json list" where
  "clash_entries_nan =
     [JObj [(''name'', JStr (ascii ''ann'')), (''wagered'', JInt 3)],
      JObj [(''name'', JStr (ascii ''bob'')), (''wagered'', JFloat NaN)],
      JObj [(''name'', JStr (ascii ''cyd'')), (''wagered'', JInt 7)]]"

text \<open>A B.site document with two tied wagers, and a CSBattle document with two users.\<close>

definition bsite_tied_doc :: json where
  "bsite_tied_doc =
     JObj [(''wagers'', JArr [
       JObj [(''username'', JStr (ascii ''ann'')), (''wager'', JInt 90), (''rank'', JInt 1)],
       JObj [(''username'', JStr (ascii ''bob'')), (''wager'', JInt 90), (''rank'', JInt 1)]])]"

definition csbattle_doc :: json where
  "csbattle_doc =
     JObj [(''users'', JArr [
       JObj [(''username'', JStr (ascii ''ann'')), (''wager'', JInt 40)],
       JObj [(''username'', JStr (ascii ''bob'')), (''wager'', JInt 90)]])]"

text \<open>
  The error snapshot of a source with the static prize pool, currency and tiers given:
  status "error", a message, no users.
\<close>

definition is_error_snapshot :: "json \<Rightarrow> string \<Rightarrow> (int \<times> int) list \<Rightarrow> snapshot \<Rightarrow> bool" where
  "is_error_snapshot pool cur tiers s =
     (status s = JStr (ascii ''error'') \<and> message s \<noteq> None \<and> users s = []
      \<and> prize_pool s = pool \<and> currency s = cur \<and> prizes s = tiers)"

text \<open>
  An adapter absorbs the failures of its \<^verbatim>\<open>try\<close> block: it returns a snapshot with the
  static currency and tiers of its source whatever the block does, and the error snapshot
  when the block raises.
\<close>

definition absorbed ::
  "exn + snapshot \<Rightarrow> exn + snapshot \<Rightarrow> json \<Rightarrow> string \<Rightarrow> (int \<times> int) list \<Rightarrow> bool" where
  "absorbed block result pool cur tiers =
     (case result of
        Inl e \<Rightarrow> False
      | Inr s \<Rightarrow>
          currency s = cur \<and> prizes s = tiers
          \<and> (case block of Inr s' \<Rightarrow> True | Inl e \<Rightarrow> is_error_snapshot pool cur tiers s))"

text \<open>
  The outbound call failed: the client raised (timeout, transport error), or the body is
  no JSON; for the adapters that call \<^verbatim>\<open>raise_for_status\<close> also a status outside 2xx.
\<close>

definition call_failed :: "outcome \<Rightarrow> bool" where
  "call_failed out =
     (case out of
        Transport_error msg \<Rightarrow> True
      | Response code body \<Rightarrow> code < 200 \<or> 300 \<le> code \<or> isl body)"

definition bsite_call_failed :: "outcome \<Rightarrow> bool" where
  "bsite_call_failed out =
     (case out of Transport_error msg \<Rightarrow> True | Response code body \<Rightarrow> isl body)"

text \<open>
  Example states: a connected store without records; a connected store whose record of
  CSBattle, an error snapshot, was written at 14:20:00; the upstream of a call that times
  out, and of a call that is answered with an empty object; a process without a store.
\<close>

definition empty_store :: sys where
  "empty_store = \<lparr>db = Some (\<lambda>sid. None), fetched = []\<rparr>"

definition stamp0 :: datetime where
  "stamp0 = now0\<lparr>minute := 20, second := 0\<rparr>"

definition store0 :: sys where
  "store0 =
     \<lparr>db = Some ((\<lambda>sid. None)(''csbattle'' \<mapsto>
        \<lparr>c_data = (csbattle_static ''error'' ''timed out'')\<lparr>last_updated := Some stamp0\<rparr>,
         c_last_updated = stamp0\<rparr>)),
      fetched = []\<rparr>"

definition timed_out :: upstream where
  "timed_out = \<lparr>clock = now0, clock_later = now0, reply = Transport_error ''timed out''\<rparr>"

definition answered :: upstream where
  "answered = \<lparr>clock = now0, clock_later = now0, reply = Response 200 (Inr (JObj []))\<rparr>"

definition no_store :: sys where
  "no_store = \<lparr>db = None, fetched = []\<rparr>"

text \<open>
  The entry the loop of \<^verbatim>\<open>get_all_leaderboards\<close> stores for a site whose resolution returned
  or raised \<open>r\<close>.
\<close>

definition to_board :: "string \<Rightarrow> exn + snapshot \<Rightarrow> board" where
  "to_board sid r =
     (case r of
        Inr d \<Rightarrow> Board d
      | Inl e \<Rightarrow> Failed \<lparr>f_site_id = sid, f_error = exn_str e, f_status = ''error''\<rparr>)"

text \<open>Clash.gg times out while the other providers answer.\<close>

definition clash_down :: "string \<Rightarrow> datetime \<times> upstream" where
  "clash_down sid = (now0, if sid = ''clash'' then timed_out else answered)"

section \<open>Basic lemmas\<close>

lemma replicate_numeral: "replicate (numeral k) x = x # replicate (pred_numeral k) x"
  by (simp add: numeral_eq_Suc)

lemma bind_exn_Inl [simp]: "bind_exn (Inl e) f = Inl e"
  by (simp add: bind_exn_def)

lemma bind_exn_Inr [simp]: "bind_exn (Inr x) f = f x"
  by (simp add: bind_exn_def)

lemma bind_exn_eq_Inr: "bind_exn m f = Inr y \<longleftrightarrow> (\<exists>x. m = Inr x \<and> f x = Inr y)"
  by (cases m) simp_all

text \<open>A loop returns exactly when every round does, with the results in order.\<close>

lemma traverse_eq_Inr:
  "traverse f xs = Inr ys \<longleftrightarrow> list_all2 (\<lambda>x y. f x = Inr y) xs ys"
proof (induction xs arbitrary: ys)
  case Nil
  then show ?case by auto
next
  case (Cons x xs)
  show ?case
  proof (cases "f x")
    case (Inl e)
    then show ?thesis by (simp add: list_all2_Cons1)
  next
    case fx: (Inr y)
    show ?thesis
    proof (cases "traverse f xs")
      case (Inl e)
      then have "\<not> list_all2 (\<lambda>x y. f x = Inr y) xs zs" for zs
        using Cons.IH[of zs] by simp
      with Inl fx show ?thesis by (simp add: list_all2_Cons1)
    next
      case (Inr zs)
      then have "list_all2 (\<lambda>x y. f x = Inr y) xs ws \<longleftrightarrow> ws = zs" for ws
        using Cons.IH[of ws] by auto
      with Inr fx show ?thesis by (auto simp: list_all2_Cons1)
    qed
  qed
qed

lemma traverse_length: "traverse f xs = Inr ys \<Longrightarrow> length ys = length xs"
  by (simp add: traverse_eq_Inr list_all2_lengthD)

lemma round2_of_int [simp]: "round2 (of_int n) = of_int n"
proof -
  have "\<lfloor>(of_int n :: rat) * 100\<rfloor> = n * 100"
    by (metis floor_of_int of_int_mult of_int_numeral)
  then show ?thesis
    by (simp add: round2_def round_half_even_def Let_def)
qed

lemma round2_numeral [simp]: "round2 (numeral n) = numeral n"
  using round2_of_int[of "numeral n"] by simp

lemma round_half_even_mono: "x \<le> y \<Longrightarrow> round_half_even x \<le> round_half_even y"
proof -
  assume xy: "x \<le> y"
  have lo: "\<lfloor>z\<rfloor> \<le> round_half_even z" and hi: "round_half_even z \<le> \<lfloor>z\<rfloor> + 1" for z
    by (simp_all add: round_half_even_def Let_def)
  show ?thesis
  proof (cases "\<lfloor>x\<rfloor> = \<lfloor>y\<rfloor>")
    case True
    with xy have "x - of_int \<lfloor>x\<rfloor> \<le> y - of_int \<lfloor>y\<rfloor>" by simp
    with True show ?thesis
      by (auto simp: round_half_even_def Let_def)
  next
    case False
    with xy have "\<lfloor>x\<rfloor> < \<lfloor>y\<rfloor>" by (simp add: floor_mono order_neq_le_trans)
    with lo[of y] hi[of x] show ?thesis by linarith
  qed
qed

lemma round2_mono: "x \<le> y \<Longrightarrow> round2 x \<le> round2 y"
  by (simp add: round2_def round_half_even_mono divide_right_mono)

lemma round2x_mono: "x \<le> y \<Longrightarrow> round2x x \<le> round2x y"
  by (cases x; cases y) (simp_all add: round2_mono)

lemma ord_val_is_number: "ord_val v = Some q \<Longrightarrow> is_number v"
  by (cases v) simp_all

lemma py_round2_ord:
  assumes "ord_val v = Some q"
  shows "\<exists>r. py_round2 v = Inr r \<and> ord_val r = Some (round2x q)"
proof (cases v)
  case (JBool b)
  with assms round2_of_int[of 1] round2_of_int[of 0] show ?thesis by (cases b) auto
next
  case (JFloat x)
  with assms show ?thesis by (cases x) auto
qed (use assms in auto)

lemma map_fst_sort_key: "map fst (sort_key fst xs) = sort (map fst xs)"
proof -
  have "mset (map fst (sort_key fst xs)) = mset (map fst xs)" by simp
  moreover have "sorted (map fst (sort_key fst xs))" by (rule sorted_sort_key)
  ultimately show ?thesis by (metis properties_for_sort)
qed

lemma sort_rev: "sort (rev xs) = sort (xs :: 'a::linorder list)"
  by (rule properties_for_sort) simp_all

text \<open>The definitions a concrete call of an adapter unfolds to.\<close>

lemmas eval_defs =
  ctx0_def place_of_def race_doc_def fetch_skinfans_data_def index_fetch_skinfans_data_def
  skinfans_try_def skinfans_race_def skinfans_places_def skinfans_place_def
  raise_for_status_def json_body_def mask_username_def sanitize_username_def
  replace_surrogate_def py_prefix_def stars_def ascii_def replicate_numeral

section \<open>Masking: properties\<close>

lemma sanitize_username_length:
  "sanitize_username (JStr s) = map replace_surrogate s"
  by (simp add: sanitize_username_def)

lemma sanitize_username_ascii:
  "list_all (\<lambda>c. c < 0xD800) s \<Longrightarrow> sanitize_username (JStr s) = s"
  by (induction s) (simp_all add: sanitize_username_def replace_surrogate_def)

lemma sanitize_username_surrogate:
  "sanitize_username (JStr [0x41, 0xD800, 0x42]) = ascii ''A?B''"
  by (simp add: sanitize_username_def replace_surrogate_def ascii_def)

lemma sanitize_username_not_str:
  "sanitize_username JNull = ascii ''Unknown''"
  "sanitize_username (JInt n) = ascii ''Unknown''"
  by (simp_all add: sanitize_username_def)

text \<open>
  Claim C4. For every name and every number \<open>v\<close> of visible characters (the default is 2),
  \<open>mask_username\<close> sanitizes the name first; a sanitized name of length at most \<open>v\<close> is
  returned unchanged, a longer one becomes its first \<open>v\<close> characters followed by one
  asterisk per remaining character, at most 8. "Alexander" becomes "Al" and 7 asterisks,
  "Al" stays "Al", and "AVeryLongUsernameHere" becomes "AV" and exactly 8 asterisks.
\<close>

theorem mask_username_spec:
  "mask_username name (int v) =
     (let s = sanitize_username name in
      if length s \<le> v then s
      else take v s @ replicate (min (length s - v) 8) (of_char CHR ''*''))
   \<and> mask_username (JStr (ascii ''Alexander'')) 2 = ascii ''Al*******''
   \<and> mask_username (JStr (ascii ''Al'')) 2 = ascii ''Al''
   \<and> mask_username (JStr (ascii ''AVeryLongUsernameHere'')) 2 = ascii ''AV********''"
proof -
  have general: "mask_username name (int v) =
     (let s = sanitize_username name in
      if length s \<le> v then s
      else take v s @ replicate (min (length s - v) 8) (of_char CHR ''*''))"
  proof -
    have "nat (min (int (length s) - int v) 8) = min (length s - v) 8" for s :: pystr
      by arith
    then show ?thesis
      by (simp add: mask_username_def py_prefix_def stars_def Let_def)
  qed
  have ex1: "mask_username (JStr (ascii ''Alexander'')) 2 = ascii ''Al*******''"
    by (simp add: mask_username_def sanitize_username_def replace_surrogate_def
        py_prefix_def stars_def ascii_def replicate_numeral)
  have ex2: "mask_username (JStr (ascii ''Al'')) 2 = ascii ''Al''"
    by (simp add: mask_username_def sanitize_username_def replace_surrogate_def ascii_def)
  have ex3: "mask_username (JStr (ascii ''AVeryLongUsernameHere'')) 2 = ascii ''AV********''"
    by (simp add: mask_username_def sanitize_username_def replace_surrogate_def
        py_prefix_def stars_def ascii_def replicate_numeral)
  from general ex1 ex2 ex3 show ?thesis by blast
qed

section \<open>The countdown of the monthly race\<close>

lemma end_of_month_midnight:
  assumes "valid_datetime now" "year now < 9999"
    and "hour now = 0" "minute now = 0" "second now = 0"
  shows "end_of_month now = Inr (last_second_of_month now)"
  using assms
  by (auto simp: end_of_month_def replace_date_def minus_one_second_def bind_exn_def
      last_second_of_month_def valid_datetime_def days_in_month_def Let_def)

lemma end_of_month_next_month:
  assumes "valid_datetime now" "year now < 9999"
    and "0 < second now"
  shows "end_of_month now =
     Inr (now\<lparr>year := (if month now = 12 then year now + 1 else year now),
              month := (if month now = 12 then 1 else month now + 1),
              day := 1, second := second now - 1\<rparr>)"
  using assms
  by (auto simp: end_of_month_def replace_date_def minus_one_second_def bind_exn_def
      valid_datetime_def days_in_month_def Let_def)

text \<open>
  Claim C6 (the code differs). At 2026-11-04T14:23:05 UTC the value the source names
  \<^verbatim>\<open>end_of_month\<close> is 2026-12-01T14:23:04, a time in the following month: \<^verbatim>\<open>replace\<close>
  keeps the time of day of \<^verbatim>\<open>now\<close>. The last second of November is 2026-11-30T23:59:59.
\<close>

theorem end_of_month_keeps_time_of_day:
  "end_of_month \<lparr>year = 2026, month = 11, day = 4, hour = 14, minute = 23, second = 5,
       microsecond = 0\<rparr>
     = Inr \<lparr>year = 2026, month = 12, day = 1, hour = 14, minute = 23, second = 4,
         microsecond = 0\<rparr>
   \<and> last_second_of_month \<lparr>year = 2026, month = 11, day = 4, hour = 14, minute = 23,
       second = 5, microsecond = 0\<rparr>
     = \<lparr>year = 2026, month = 11, day = 30, hour = 23, minute = 59, second = 59,
         microsecond = 0\<rparr>"
  by (simp add: end_of_month_def replace_date_def minus_one_second_def bind_exn_def
      last_second_of_month_def valid_datetime_def days_in_month_def is_leap_def Let_def)

section \<open>Skin.fans: ranks and skipped places\<close>

lemma skinfans_place_rank:
  assumes "skinfans_place c (i, p) = Inr us"
  shows "map rank us = (if has_user p then [JInt (int i + 1)] else [])"
  using assms
  by (auto simp: skinfans_place_def has_user_def bind_exn_eq_Inr split: if_splits)

lemma skinfans_loop_ranks:
  "traverse (skinfans_place c) (enumerate n ps) = Inr uss \<Longrightarrow>
   map rank (concat uss) =
     map (\<lambda>ip. JInt (int (fst ip) + 1)) (filter (\<lambda>ip. has_user (snd ip)) (enumerate n ps))"
proof (induction ps arbitrary: n uss)
  case Nil
  then show ?case by simp
next
  case (Cons p ps)
  from Cons.prems obtain us rest where
    uss: "uss = us # rest" and
    us: "skinfans_place c (n, p) = Inr us" and
    rest: "traverse (skinfans_place c) (enumerate (Suc n) ps) = Inr rest"
    by (auto split: sum.splits)
  from Cons.IH[OF rest] skinfans_place_rank[OF us] uss show ?case by simp
qed

lemma skinfans_try_ranks:
  assumes "skinfans_try c (Response code (Inr data)) = Inr s"
  shows "\<exists>race ps. skinfans_race data = Inr race \<and> skinfans_places race = Inr ps \<and>
      map rank (users s) =
        map (\<lambda>ip. JInt (int (fst ip) + 1)) (filter (\<lambda>ip. has_user (snd ip)) (enumerate 0 ps))"
proof -
  from assms obtain race ps uss where
    race: "skinfans_race data = Inr race" and ps: "skinfans_places race = Inr ps" and
    uss: "traverse (skinfans_place c) (enumerate 0 ps) = Inr uss" and
    us: "users s = concat uss"
    by (auto simp: skinfans_try_def bind_exn_eq_Inr json_body_def)
  from skinfans_loop_ranks[OF uss] race ps us show ?thesis by auto
qed

lemma fetch_skinfans_normal:
  assumes "fetch_skinfans_data c out = Inr s" "message s = None"
  shows "skinfans_try c out = Inr s"
  using assms
  by (auto simp: fetch_skinfans_data_def skinfans_static_def split: if_splits sum.splits)

lemma index_fetch_skinfans_normal:
  assumes "index_fetch_skinfans_data c now out = Inr s" "message s = None"
  shows "\<exists>s'. skinfans_try c out = Inr s' \<and> users s = users s'"
  using assms
  by (auto simp: index_fetch_skinfans_data_def skinfans_static_def split: if_splits sum.splits)

text \<open>
  Claim C2, as the code has it. In both files a raw place of Skin.fans without a user object
  is skipped, and the rank of an emitted entry is the position (from 1) of its place among
  the first ten raw places: a skipped place keeps its rank slot, so the ranks increase but
  may have gaps.
\<close>

theorem skinfans_rank_is_raw_position:
  assumes "f = fetch_skinfans_data c \<or> f = index_fetch_skinfans_data c now"
    and "f (Response code (Inr data)) = Inr s"
    and "message s = None"
  shows "\<exists>race ps. skinfans_race data = Inr race \<and> skinfans_places race = Inr ps \<and>
      map rank (users s) =
        map (\<lambda>ip. JInt (int (fst ip) + 1)) (filter (\<lambda>ip. has_user (snd ip)) (enumerate 0 ps))"
proof -
  from assms obtain s' where "skinfans_try c (Response code (Inr data)) = Inr s'"
    and "users s = users s'"
    using fetch_skinfans_normal index_fetch_skinfans_normal by blast
  with skinfans_try_ranks show ?thesis by metis
qed

text \<open>The theorem at three places of which the first has a null user: ranks 2 and 3.\<close>

theorem skinfans_rank_is_raw_position_witness:
  "\<exists>s. fetch_skinfans_data ctx0
          (Response 200 (Inr (race_doc [JObj [(''payout'', JInt 300), (''user'', JNull)],
                                         place_of 120 ''Bob'' 40,
                                         place_of 50 ''Carol'' 20]))) = Inr s
       \<and> message s = None
       \<and> map rank (users s) = [JInt 2, JInt 3]"
proof -
  let ?places = "[JObj [(''payout'', JInt 300), (''user'', JNull)],
                  place_of 120 ''Bob'' 40, place_of 50 ''Carol'' 20]"
  let ?out = "Response 200 (Inr (race_doc ?places))"
  have "\<exists>s. fetch_skinfans_data ctx0 ?out = Inr s \<and> message s = None"
    by (simp add: eval_defs)
  then obtain s where s: "fetch_skinfans_data ctx0 ?out = Inr s" and m: "message s = None"
    by (elim exE conjE)
  have d: "fetch_skinfans_data ctx0 = fetch_skinfans_data ctx0
        \<or> fetch_skinfans_data ctx0 = index_fetch_skinfans_data ctx0 undefined"
    by (rule disjI1) (rule refl)
  have "\<exists>race ps. skinfans_race (race_doc ?places) = Inr race \<and> skinfans_places race = Inr ps \<and>
      map rank (users s) =
        map (\<lambda>ip. JInt (int (fst ip) + 1)) (filter (\<lambda>ip. has_user (snd ip)) (enumerate 0 ps))"
    by (rule skinfans_rank_is_raw_position[OF d s m])
  then obtain race ps where
    race: "skinfans_race (race_doc ?places) = Inr race" and
    ps: "skinfans_places race = Inr ps" and
    ranks: "map rank (users s) =
      map (\<lambda>ip. JInt (int (fst ip) + 1)) (filter (\<lambda>ip. has_user (snd ip)) (enumerate 0 ps))"
    by (elim exE conjE)
  from race have r: "race = JObj [(''places'', JArr ?places), (''active'', JBool True)]"
    by (simp add: skinfans_race_def race_doc_def)
  from ps have p: "ps = ?places"
    unfolding r by (simp add: skinfans_places_def)
  from ranks have "map rank (users s) = [JInt 2, JInt 3]"
    unfolding p by (simp add: has_user_def place_of_def)
  with s m show ?thesis by (intro exI conjI)
qed

text \<open>
  Claim C2 as stated fails: for three places of which the second has no user object the
  two users have the ranks 1 and 3, not 1 and 2.
\<close>

theorem skinfans_skipped_place_leaves_gap:
  "(case fetch_skinfans_data ctx0
           (Response 200 (Inr (race_doc [place_of 300 ''Alice'' 50,
                                          JObj [(''payout'', JInt 120)],
                                          place_of 50 ''Carol'' 20]))) of
      Inr s \<Rightarrow> map rank (users s)
    | Inl e \<Rightarrow> []) = [JInt 1, JInt 3]"
  by (simp add: eval_defs)

section \<open>At most ten users, and their ranks\<close>

lemma clash_entry_rank: "clash_entry (i, e) = Inr u \<Longrightarrow> rank u = JInt (int i + 1)"
  by (auto simp: clash_entry_def bind_exn_eq_Inr)

lemma csbattle_entry_rank: "csbattle_entry (i, e) = Inr u \<Longrightarrow> rank u = JInt (int i + 1)"
  by (auto simp: csbattle_entry_def bind_exn_eq_Inr)

lemma enumerated_loop_ranks:
  assumes "\<And>i e u. g (i, e) = Inr u \<Longrightarrow> rank u = JInt (int i + 1)"
  shows "traverse g (enumerate n xs) = Inr us \<Longrightarrow>
    map rank us = map (\<lambda>i. JInt (int i + 1)) [n ..< n + length xs]"
proof (induction xs arbitrary: n us)
  case Nil
  then show ?case by simp
next
  case (Cons x xs)
  from Cons.prems obtain u rest where
    us: "us = u # rest" and u: "g (n, x) = Inr u" and
    rest: "traverse g (enumerate (Suc n) xs) = Inr rest"
    by (auto split: sum.splits)
  have upt: "[n ..< n + length (x # xs)] = n # [Suc n ..< Suc n + length xs]"
    by (subst upt_conv_Cons) simp_all
  from Cons.IH[OF rest] assms[OF u] us show ?case unfolding upt by simp
qed

lemma ranks_of_positions:
  assumes "map rank us = map (\<lambda>i. JInt (int i + 1)) [0 ..< 0 + length xs]" "length xs \<le> 10"
  shows "\<exists>rs. map rank us = map JInt rs \<and> sorted_wrt (<) rs \<and> set rs \<subseteq> {1..10}"
proof -
  let ?rs = "map (\<lambda>i. int i + 1) [0 ..< length xs]"
  have "map rank us = map JInt ?rs" using assms(1) by (simp add: comp_def)
  moreover have "sorted_wrt (<) ?rs"
    by (simp add: sorted_wrt_map sorted_wrt_upt[THEN sorted_wrt_mono_rel[rotated]])
  moreover have "set ?rs \<subseteq> {1..10}" using assms(2) by auto
  ultimately show ?thesis by blast
qed

lemma clash_try_users:
  assumes "clash_try c now out = Inr s"
  shows "length (users s) \<le> 10 \<and>
    (\<exists>rs. map rank (users s) = map JInt rs \<and> sorted_wrt (<) rs \<and> set rs \<subseteq> {1..10})"
proof -
  from assms obtain xs where
    t: "traverse clash_entry (enumerate 0 (take 10 xs)) = Inr (users s)"
    by (cases out) (auto simp: clash_try_def bind_exn_eq_Inr)
  have len: "length (take 10 xs) \<le> 10" by simp
  from traverse_length[OF t] have "length (users s) \<le> 10" by simp
  moreover from enumerated_loop_ranks[of clash_entry, OF clash_entry_rank t]
  have "\<exists>rs. map rank (users s) = map JInt rs \<and> sorted_wrt (<) rs \<and> set rs \<subseteq> {1..10}"
    by (rule ranks_of_positions[OF _ len])
  ultimately show ?thesis by simp
qed

lemma csbattle_try_users:
  assumes "csbattle_try c out = Inr s"
  shows "length (users s) \<le> 10 \<and>
    (\<exists>rs. map rank (users s) = map JInt rs \<and> sorted_wrt (<) rs \<and> set rs \<subseteq> {1..10})"
proof -
  from assms obtain xs where
    t: "traverse csbattle_entry (enumerate 0 (take 10 xs)) = Inr (users s)"
    by (cases out) (auto simp: csbattle_try_def bind_exn_eq_Inr)
  have len: "length (take 10 xs) \<le> 10" by simp
  from traverse_length[OF t] have "length (users s) \<le> 10" by simp
  moreover from enumerated_loop_ranks[of csbattle_entry, OF csbattle_entry_rank t]
  have "\<exists>rs. map rank (users s) = map JInt rs \<and> sorted_wrt (<) rs \<and> set rs \<subseteq> {1..10}"
    by (rule ranks_of_positions[OF _ len])
  ultimately show ?thesis by simp
qed

lemma py_slice10_length: "py_slice10 v = Inr xs \<Longrightarrow> length xs \<le> 10"
  by (cases v) auto

lemma skinfans_places_length: "skinfans_places race = Inr ps \<Longrightarrow> length ps \<le> 10"
  by (auto simp: skinfans_places_def bind_exn_eq_Inr dest: py_slice10_length)

lemma skinfans_place_length: "skinfans_place c ip = Inr us \<Longrightarrow> length us \<le> 1"
  by (cases ip) (auto simp: skinfans_place_def bind_exn_eq_Inr split: if_splits)

lemma skinfans_loop_length:
  "traverse (skinfans_place c) xs = Inr uss \<Longrightarrow> length (concat uss) \<le> length xs"
proof (induction xs arbitrary: uss)
  case Nil
  then show ?case by simp
next
  case (Cons x xs)
  from Cons.prems obtain us rest where
    uss: "uss = us # rest" and us: "skinfans_place c x = Inr us" and
    rest: "traverse (skinfans_place c) xs = Inr rest"
    by (auto split: sum.splits)
  from Cons.IH[OF rest] skinfans_place_length[OF us] uss show ?case by simp
qed

lemma filtered_positions_increasing:
  assumes "length ps \<le> 10"
  shows "sorted_wrt (<) (map (\<lambda>ip. int (fst ip) + 1) (filter P (enumerate 0 ps)))
    \<and> set (map (\<lambda>ip. int (fst ip) + 1) (filter P (enumerate 0 ps))) \<subseteq> {1..10}"
proof -
  have "sorted_wrt (\<lambda>a b. fst a < fst b) (enumerate 0 ps)"
    using sorted_wrt_map[of "(<)" fst "enumerate 0 ps"] by (simp add: sorted_wrt_upt)
  then have "sorted_wrt (\<lambda>a b. fst a < fst b) (filter P (enumerate 0 ps))"
    by (rule sorted_wrt_filter)
  then have 1: "sorted_wrt (<) (map (\<lambda>ip. int (fst ip) + 1) (filter P (enumerate 0 ps)))"
    unfolding sorted_wrt_map by (rule sorted_wrt_mono_rel[rotated]) simp
  have "fst ip < length ps" if "ip \<in> set (enumerate 0 ps)" for ip
    using that by (auto simp: in_set_enumerate_eq)
  with assms have 2: "set (map (\<lambda>ip. int (fst ip) + 1) (filter P (enumerate 0 ps))) \<subseteq> {1..10}"
    by fastforce
  from 1 2 show ?thesis ..
qed

lemma skinfans_try_users:
  assumes "skinfans_try c out = Inr s"
  shows "length (users s) \<le> 10 \<and>
    (\<exists>rs. map rank (users s) = map JInt rs \<and> sorted_wrt (<) rs \<and> set rs \<subseteq> {1..10})"
proof -
  from assms obtain race ps uss where
    ps: "skinfans_places race = Inr ps" and
    uss: "traverse (skinfans_place c) (enumerate 0 ps) = Inr uss" and
    us: "users s = concat uss"
    by (cases out) (auto simp: skinfans_try_def bind_exn_eq_Inr)
  note len = skinfans_places_length[OF ps]
  from skinfans_loop_length[OF uss] len us have "length (users s) \<le> 10" by simp
  moreover have "map rank (users s) =
      map JInt (map (\<lambda>ip. int (fst ip) + 1) (filter (\<lambda>ip. has_user (snd ip)) (enumerate 0 ps)))"
    using skinfans_loop_ranks[OF uss] us by (simp add: comp_def)
  ultimately show ?thesis
    using filtered_positions_increasing[OF len] by blast
qed

lemma bsite_entry_rank:
  "bsite_entry pl w = Inr u \<Longrightarrow> py_get w ''rank'' (JInt 0) = Inr (rank u)"
  by (auto simp: bsite_entry_def bind_exn_eq_Inr)

lemma bsite_loop_ranks:
  "traverse (bsite_entry pl) ws = Inr us \<Longrightarrow>
   map (\<lambda>u. Inr (rank u)) us = map (\<lambda>w. py_get w ''rank'' (JInt 0)) ws"
proof (induction ws arbitrary: us)
  case Nil
  then show ?case by simp
next
  case (Cons w ws)
  from Cons.prems obtain u rest where
    us: "us = u # rest" and u: "bsite_entry pl w = Inr u" and
    rest: "traverse (bsite_entry pl) ws = Inr rest"
    by (auto split: sum.splits)
  from Cons.IH[OF rest] bsite_entry_rank[OF u] us show ?case by simp
qed

lemma bsite_normalize_users:
  assumes "bsite_normalize data = Inr s"
  shows "message s = None \<and> length (users s) \<le> 10 \<and>
    (\<exists>ws. bsite_wagers data = Inr ws \<and>
       map (\<lambda>u. Inr (rank u)) (users s) = map (\<lambda>w. py_get w ''rank'' (JInt 0)) ws)"
proof -
  from assms obtain wagers ws pl where
    w: "py_get data ''wagers'' (JArr []) = Inr wagers" and
    ws: "py_slice10 wagers = Inr ws" and
    t: "traverse (bsite_entry pl) ws = Inr (users s)" and
    m: "message s = None"
    by (auto simp: bsite_normalize_def bind_exn_eq_Inr)
  from w ws have "bsite_wagers data = Inr ws" by (simp add: bsite_wagers_def)
  moreover from traverse_length[OF t] py_slice10_length[OF ws] have "length (users s) \<le> 10"
    by simp
  ultimately show ?thesis using bsite_loop_ranks[OF t] m by blast
qed

lemma fetch_bsite_users:
  assumes "fetch_bsite_data out = Inr s \<or> index_fetch_bsite_data now out = Inr s"
  shows "length (users s) \<le> 10 \<and>
    (message s = None \<longrightarrow>
      (\<exists>code data ws. out = Response code (Inr data) \<and> bsite_wagers data = Inr ws \<and>
         map (\<lambda>u. Inr (rank u)) (users s) = map (\<lambda>w. py_get w ''rank'' (JInt 0)) ws))"
proof -
  consider (static) "users s = []" "message s \<noteq> None"
    | (normal) code data s' where "out = Response code (Inr data)"
        "bsite_normalize data = Inr s'" "users s = users s'" "message s = message s'"
    using assms
    by (cases out)
      (auto simp: fetch_bsite_data_def index_fetch_bsite_data_def bsite_try_def
        index_bsite_try_def bsite_static_def bind_exn_eq_Inr json_body_def
        split: sum.splits exn.splits if_splits)
  then show ?thesis
  proof cases
    case static
    then show ?thesis by auto
  next
    case normal
    with bsite_normalize_users[OF normal(2)] show ?thesis by auto
  qed
qed

lemma fetch_clash_users:
  assumes "fetch_clash_data c now out = Inr s \<or> index_fetch_clash_data c now now' out = Inr s"
  shows "length (users s) \<le> 10 \<and>
    (\<exists>rs. map rank (users s) = map JInt rs \<and> sorted_wrt (<) rs \<and> set rs \<subseteq> {1..10})"
proof -
  consider (static) "users s = []"
    | (normal) s' where "clash_try c now out = Inr s'" "users s = users s'"
    using assms
    by (auto simp: fetch_clash_data_def index_fetch_clash_data_def split: sum.splits)
  then show ?thesis
  proof cases
    case static
    then show ?thesis by simp
  next
    case normal
    with clash_try_users[OF normal(1)] show ?thesis by simp
  qed
qed

lemma fetch_csbattle_users:
  assumes "fetch_csbattle_data c out = Inr s \<or> index_fetch_csbattle_data c now out = Inr s"
  shows "length (users s) \<le> 10 \<and>
    (\<exists>rs. map rank (users s) = map JInt rs \<and> sorted_wrt (<) rs \<and> set rs \<subseteq> {1..10})"
proof -
  consider (static) "users s = []"
    | (normal) s' where "csbattle_try c out = Inr s'" "users s = users s'"
    using assms
    by (auto simp: fetch_csbattle_data_def index_fetch_csbattle_data_def csbattle_static_def
        split: sum.splits if_splits)
  then show ?thesis
  proof cases
    case static
    then show ?thesis by simp
  next
    case normal
    with csbattle_try_users[OF normal(1)] show ?thesis by simp
  qed
qed

lemma fetch_skinfans_users:
  assumes "fetch_skinfans_data c out = Inr s \<or> index_fetch_skinfans_data c now out = Inr s"
  shows "length (users s) \<le> 10 \<and>
    (\<exists>rs. map rank (users s) = map JInt rs \<and> sorted_wrt (<) rs \<and> set rs \<subseteq> {1..10})"
proof -
  consider (static) "users s = []"
    | (normal) s' where "skinfans_try c out = Inr s'" "users s = users s'"
    using assms
    by (auto simp: fetch_skinfans_data_def index_fetch_skinfans_data_def skinfans_static_def
        split: sum.splits if_splits)
  then show ?thesis
  proof cases
    case static
    then show ?thesis by simp
  next
    case normal
    with skinfans_try_users[OF normal(1)] show ?thesis by simp
  qed
qed

text \<open>
  Claim C3, as the code has it. Every snapshot an adapter of either file returns has at
  most ten users. For Clash.gg, CSBattle and Skin.fans the ranks are integers between 1
  and 10 that strictly increase along the list (so they are unique). For B.site the ranks
  are the \<^verbatim>\<open>rank\<close> fields of the first ten wagers as the provider sent them (0 for a
  missing field), in the provider's order; the code does not check them.
\<close>

theorem users_at_most_ten_ranks_increasing:
  assumes "f out = Inr s"
  shows "(f \<in> {fetch_clash_data c now, index_fetch_clash_data c now now',
               fetch_bsite_data, index_fetch_bsite_data now,
               fetch_csbattle_data c, index_fetch_csbattle_data c now,
               fetch_skinfans_data c, index_fetch_skinfans_data c now}
            \<longrightarrow> length (users s) \<le> 10)
    \<and> (f \<in> {fetch_clash_data c now, index_fetch_clash_data c now now',
               fetch_csbattle_data c, index_fetch_csbattle_data c now,
               fetch_skinfans_data c, index_fetch_skinfans_data c now}
            \<longrightarrow> (\<exists>rs. map rank (users s) = map JInt rs \<and> sorted_wrt (<) rs
                      \<and> set rs \<subseteq> {1..10}))
    \<and> (f \<in> {fetch_bsite_data, index_fetch_bsite_data now} \<longrightarrow> message s = None
            \<longrightarrow> (\<exists>code data ws. out = Response code (Inr data) \<and> bsite_wagers data = Inr ws
                      \<and> map (\<lambda>u. Inr (rank u)) (users s)
                          = map (\<lambda>w. py_get w ''rank'' (JInt 0)) ws))"
proof (intro conjI impI)
  assume "f \<in> {fetch_clash_data c now, index_fetch_clash_data c now now',
               fetch_bsite_data, index_fetch_bsite_data now,
               fetch_csbattle_data c, index_fetch_csbattle_data c now,
               fetch_skinfans_data c, index_fetch_skinfans_data c now}"
  with assms consider
      "fetch_clash_data c now out = Inr s \<or> index_fetch_clash_data c now now' out = Inr s"
    | "fetch_bsite_data out = Inr s \<or> index_fetch_bsite_data now out = Inr s"
    | "fetch_csbattle_data c out = Inr s \<or> index_fetch_csbattle_data c now out = Inr s"
    | "fetch_skinfans_data c out = Inr s \<or> index_fetch_skinfans_data c now out = Inr s"
    by auto
  then show "length (users s) \<le> 10"
    using fetch_clash_users fetch_bsite_users fetch_csbattle_users fetch_skinfans_users
    by cases blast+
next
  assume "f \<in> {fetch_clash_data c now, index_fetch_clash_data c now now',
               fetch_csbattle_data c, index_fetch_csbattle_data c now,
               fetch_skinfans_data c, index_fetch_skinfans_data c now}"
  with assms consider
      "fetch_clash_data c now out = Inr s \<or> index_fetch_clash_data c now now' out = Inr s"
    | "fetch_csbattle_data c out = Inr s \<or> index_fetch_csbattle_data c now out = Inr s"
    | "fetch_skinfans_data c out = Inr s \<or> index_fetch_skinfans_data c now out = Inr s"
    by auto
  then show "\<exists>rs. map rank (users s) = map JInt rs \<and> sorted_wrt (<) rs \<and> set rs \<subseteq> {1..10}"
    using fetch_clash_users fetch_csbattle_users fetch_skinfans_users
    by cases blast+
next
  assume "f \<in> {fetch_bsite_data, index_fetch_bsite_data now}" and m: "message s = None"
  with assms have "fetch_bsite_data out = Inr s \<or> index_fetch_bsite_data now out = Inr s"
    by auto
  from fetch_bsite_users[OF this] m
  show "\<exists>code data ws. out = Response code (Inr data) \<and> bsite_wagers data = Inr ws
      \<and> map (\<lambda>u. Inr (rank u)) (users s) = map (\<lambda>w. py_get w ''rank'' (JInt 0)) ws"
    by simp
qed

text \<open>The theorem at a CSBattle response with two users.\<close>

theorem users_at_most_ten_ranks_increasing_witness:
  "\<exists>s. fetch_csbattle_data ctx0 (Response 200 (Inr csbattle_doc)) = Inr s
     \<and> length (users s) \<le> 10
     \<and> (\<exists>rs. map rank (users s) = map JInt rs \<and> sorted_wrt (<) rs \<and> set rs \<subseteq> {1..10})"
proof -
  have "\<exists>s. fetch_csbattle_data ctx0 (Response 200 (Inr csbattle_doc)) = Inr s"
    by (simp add: csbattle_doc_def ctx0_def fetch_csbattle_data_def csbattle_try_def
        sorted_desc_def csbattle_entry_def raise_for_status_def json_body_def)
  then obtain s where s: "fetch_csbattle_data ctx0 (Response 200 (Inr csbattle_doc)) = Inr s" ..
  have m1: "fetch_csbattle_data ctx0 \<in>
      {fetch_clash_data ctx0 now0, index_fetch_clash_data ctx0 now0 now0,
       fetch_bsite_data, index_fetch_bsite_data now0,
       fetch_csbattle_data ctx0, index_fetch_csbattle_data ctx0 now0,
       fetch_skinfans_data ctx0, index_fetch_skinfans_data ctx0 now0}"
    by simp
  have m2: "fetch_csbattle_data ctx0 \<in>
      {fetch_clash_data ctx0 now0, index_fetch_clash_data ctx0 now0 now0,
       fetch_csbattle_data ctx0, index_fetch_csbattle_data ctx0 now0,
       fetch_skinfans_data ctx0, index_fetch_skinfans_data ctx0 now0}"
    by simp
  note t = users_at_most_ten_ranks_increasing[where f = "fetch_csbattle_data ctx0"
      and out = "Response 200 (Inr csbattle_doc)" and s = s and now = now0 and now' = now0
      and c = ctx0, OF s]
  from t[THEN conjunct1] m1 have "length (users s) \<le> 10" by (rule mp)
  moreover from t[THEN conjunct2, THEN conjunct1] m2 have "\<exists>rs. map rank (users s) = map JInt rs \<and> sorted_wrt (<) rs
      \<and> set rs \<subseteq> {1..10}"
    by (rule mp)
  ultimately show ?thesis using s by (intro exI[of _ s]) simp
qed

text \<open>
  Claim C3 as stated fails for B.site: two wagers the provider ranks 1 both keep the rank
  1, so the ranks are neither unique nor increasing.
\<close>

theorem bsite_ranks_not_unique:
  "(case fetch_bsite_data (Response 200 (Inr bsite_tied_doc)) of
      Inr s \<Rightarrow> map rank (users s)
    | Inl e \<Rightarrow> []) = [JInt 1, JInt 1]"
  by (simp add: bsite_tied_doc_def fetch_bsite_data_def bsite_try_def bsite_normalize_def
      bsite_entry_def dict_get_def json_body_def)

section \<open>Clash.gg: the ten highest amounts\<close>

lemma wagered_key_Some:
  "wagered_key e = Some q \<longleftrightarrow> (\<exists>v. py_get e ''wagered'' (JInt 0) = Inr v \<and> ord_val v = Some q)"
  by (auto simp: wagered_key_def split: sum.splits)

lemma traverse_keys:
  assumes "\<forall>e \<in> set es. wagered_key e \<noteq> None"
  shows "\<exists>keys. traverse (\<lambda>x. py_get x ''wagered'' (JInt 0)) es = Inr keys
     \<and> list_all is_number keys
     \<and> list_all (\<lambda>v. ord_val v \<noteq> None) keys
     \<and> map (\<lambda>v. the (ord_val v)) keys = map (\<lambda>e. the (wagered_key e)) es"
  using assms
proof (induction es)
  case Nil
  then show ?case by simp
next
  case (Cons e es)
  then obtain keys where k: "traverse (\<lambda>x. py_get x ''wagered'' (JInt 0)) es = Inr keys"
    "list_all is_number keys"
    "list_all (\<lambda>v. ord_val v \<noteq> None) keys"
    "map (\<lambda>v. the (ord_val v)) keys = map (\<lambda>e. the (wagered_key e)) es" by auto
  from Cons.prems obtain q where q: "wagered_key e = Some q" by auto
  then obtain v where v: "py_get e ''wagered'' (JInt 0) = Inr v" "ord_val v = Some q"
    by (auto simp: wagered_key_Some)
  from ord_val_is_number[OF v(2)] v k q show ?case by simp
qed

lemma sorted_desc_wellformed:
  assumes "\<forall>e \<in> set es. wagered_key e \<noteq> None"
  shows "sorted_desc c ''wagered'' (JArr es) = Inr (by_wagered_desc es)"
proof -
  from traverse_keys[OF assms] obtain keys where
    "traverse (\<lambda>x. py_get x ''wagered'' (JInt 0)) es = Inr keys"
    "list_all is_number keys"
    "list_all (\<lambda>v. ord_val v \<noteq> None) keys"
    "map (\<lambda>v. the (ord_val v)) keys = map (\<lambda>e. the (wagered_key e)) es"
    by (elim exE conjE)
  then show ?thesis
    by (simp add: sorted_desc_def by_wagered_desc_def)
qed

lemma zip_map_self: "zip (map f xs) xs = map (\<lambda>x. (f x, x)) xs"
  by (induction xs) simp_all

lemma mset_by_wagered_desc: "mset (by_wagered_desc es) = mset es"
proof -
  have "mset (map snd (sort_key fst (rev (zip (map (\<lambda>e. the (wagered_key e)) es) es))))
      = image_mset snd (mset (rev (zip (map (\<lambda>e. the (wagered_key e)) es) es)))"
    by simp
  also have "\<dots> = mset es"
    by (simp add: zip_map_self multiset.map_comp comp_def)
  finally show ?thesis by (simp add: by_wagered_desc_def)
qed

lemma keys_by_wagered_desc:
  "map (\<lambda>e. the (wagered_key e)) (by_wagered_desc es)
     = rev (sort (map (\<lambda>e. the (wagered_key e)) es))"
proof -
  let ?k = "\<lambda>e. the (wagered_key e)"
  let ?Z = "rev (map (\<lambda>x. (?k x, x)) es)"
  have inv: "\<forall>p \<in> set (sort_key fst ?Z). fst p = ?k (snd p)"
    by auto
  have "map ?k (map snd (sort_key fst ?Z)) = map fst (sort_key fst ?Z)"
    using inv by (simp add: map_eq_conv)
  also have "\<dots> = sort (map fst ?Z)" by (rule map_fst_sort_key)
  also have "map fst ?Z = rev (map ?k es)" by (simp add: rev_map comp_def)
  also have "sort (rev (map ?k es)) = sort (map ?k es)" by (rule sort_rev)
  finally have "map ?k (map snd (sort_key fst ?Z)) = sort (map ?k es)" .
  then have "rev (map ?k (map snd (sort_key fst ?Z))) = rev (sort (map ?k es))"
    by (rule arg_cong)
  then show ?thesis
    unfolding by_wagered_desc_def zip_map_self rev_map .
qed

lemma py_get_dict:
  assumes "py_get e k d = Inr v"
  shows "\<exists>w. py_get e k' d' = Inr w"
  using assms by (cases e) simp_all

lemma clash_entry_ok:
  assumes "wagered_key e = Some q"
  shows "\<exists>u. clash_entry (i, e) = Inr u \<and> rank u = JInt (int i + 1)
     \<and> ord_val (wagered u) = Some (round2x q)
     \<and> prize u = JInt (tier_prize clash_prizes (int i + 1))"
proof -
  from assms obtain v where v: "py_get e ''wagered'' (JInt 0) = Inr v" "ord_val v = Some q"
    by (auto simp: wagered_key_Some)
  from py_get_dict[OF v(1)] obtain name where n: "py_get e ''name'' (JStr (ascii ''Unknown'')) = Inr name"
    by blast
  from py_get_dict[OF v(1)] obtain av where a: "py_get e ''avatar'' (JStr []) = Inr av"
    by blast
  from py_round2_ord[OF v(2)] obtain r where r: "py_round2 v = Inr r" "ord_val r = Some (round2x q)"
    by blast
  from v n a r show ?thesis by (simp add: clash_entry_def)
qed

lemma clash_loop:
  assumes "\<forall>e \<in> set xs. wagered_key e \<noteq> None"
  shows "\<exists>us. traverse clash_entry (enumerate n xs) = Inr us
     \<and> map rank us = map (\<lambda>i. JInt (int i + 1)) [n ..< n + length xs]
     \<and> map (\<lambda>u. ord_val (wagered u)) us = map (\<lambda>e. Some (round2x (the (wagered_key e)))) xs
     \<and> map prize us = map (\<lambda>i. JInt (tier_prize clash_prizes (int i + 1))) [n ..< n + length xs]"
  using assms
proof (induction xs arbitrary: n)
  case Nil
  then show ?case by simp
next
  case (Cons e xs)
  from Cons.prems obtain q where q: "wagered_key e = Some q" by auto
  from clash_entry_ok[OF q, of n] obtain u where u: "clash_entry (n, e) = Inr u"
    "rank u = JInt (int n + 1)" "ord_val (wagered u) = Some (round2x q)"
    "prize u = JInt (tier_prize clash_prizes (int n + 1))"
    by (elim exE conjE)
  from Cons.prems have "\<forall>e \<in> set xs. wagered_key e \<noteq> None" by simp
  from Cons.IH[OF this, of "Suc n"] obtain us where us:
    "traverse clash_entry (enumerate (Suc n) xs) = Inr us"
    "map rank us = map (\<lambda>i. JInt (int i + 1)) [Suc n ..< Suc n + length xs]"
    "map (\<lambda>u. ord_val (wagered u)) us = map (\<lambda>e. Some (round2x (the (wagered_key e)))) xs"
    "map prize us = map (\<lambda>i. JInt (tier_prize clash_prizes (int i + 1))) [Suc n ..< Suc n + length xs]"
    by (elim exE conjE)
  have upt: "[n ..< n + length (e # xs)] = n # [Suc n ..< Suc n + length xs]"
    by (subst upt_conv_Cons) simp_all
  show ?case
    unfolding upt using u us q by simp
qed

lemma end_of_month_ok:
  assumes "valid_datetime now" "year now < 9999"
  shows "\<exists>eom. end_of_month now = Inr eom"
  using assms
  by (auto simp: end_of_month_def replace_date_def minus_one_second_def
      valid_datetime_def days_in_month_def Let_def)

lemma tier_prize_clash_above: "7 < r \<Longrightarrow> tier_prize clash_prizes r = 0"
  by (simp add: clash_prizes_def)

lemma sorted_rev_map_round2x:
  "sorted (rev (map round2x (take n (rev (sort ks)))))"
proof -
  have "rev (map round2x (take n (rev (sort ks)))) = map round2x (drop (length ks - n) (sort ks))"
    by (simp add: rev_map rev_take)
  moreover have "sorted (drop (length ks - n) (sort ks))"
    by (simp add: sorted_wrt_drop)
  then have "sorted (map round2x (drop (length ks - n) (sort ks)))"
    unfolding sorted_map
    by (rule sorted_wrt_mono_rel[rotated]) (rule round2x_mono)
  ultimately show ?thesis by simp
qed

lemma top_keys_strict:
  assumes "distinct (ks :: xnum list)"
  shows "sorted_wrt (\<lambda>a b. b < a) (take n (rev (sort ks)))"
proof -
  from assms have "sorted_wrt (<) (sort ks)"
    by (simp add: strict_sorted_iff)
  then have "sorted_wrt (\<lambda>a b. b < a) (rev (sort ks))"
    by (simp add: sorted_wrt_rev)
  then show ?thesis by (rule sorted_wrt_take)
qed

lemma distinct_keys:
  assumes "\<forall>e \<in> set es. wagered_key e \<noteq> None" "distinct (map wagered_key es)"
  shows "distinct (map (\<lambda>e. the (wagered_key e)) es)"
proof -
  have "inj_on the (set (map wagered_key es))"
    using assms(1) by (auto simp: inj_on_def) (metis option.sel)
  with assms(2) have "distinct (map the (map wagered_key es))"
    unfolding distinct_map[of the] by simp
  then show ?thesis by (simp add: comp_def)
qed

lemma clash_try_wellformed:
  assumes now: "valid_datetime now" "year now < 9999"
    and code: "200 \<le> code" "code < 300"
    and wf: "\<forall>e \<in> set entries. wagered_key e \<noteq> None"
  shows "\<exists>s. clash_try c now (Response code (Inr (JArr entries))) = Inr s
     \<and> status s = JStr (ascii ''active'') \<and> message s = None
     \<and> length (users s) = min 10 (length entries)
     \<and> map (\<lambda>u. ord_val (wagered u)) (users s) =
         map (\<lambda>q. Some (round2x q))
           (take 10 (rev (sort (map (\<lambda>e. the (wagered_key e)) entries))))"
proof -
  let ?k = "\<lambda>e. the (wagered_key e)"
  let ?T = "take 10 (by_wagered_desc entries)"
  have "set ?T \<subseteq> set (by_wagered_desc entries)" by (rule set_take_subset)
  also have "\<dots> = set entries" using mset_by_wagered_desc[of entries] by (rule mset_eq_setD)
  finally have wfT: "\<forall>e \<in> set ?T. wagered_key e \<noteq> None" using wf by auto
  have lenT: "length ?T = min 10 (length entries)"
    using mset_by_wagered_desc[of entries, THEN mset_eq_length] by simp
  from clash_loop[OF wfT, of 0] obtain us where us:
    "traverse clash_entry (enumerate 0 ?T) = Inr us"
    "map (\<lambda>u. ord_val (wagered u)) us = map (\<lambda>e. Some (round2x (?k e))) ?T"
    by (elim exE conjE)
  from traverse_length[OF us(1)] lenT have len: "length us = min 10 (length entries)" by simp
  from end_of_month_ok[OF now] obtain eom where eom: "end_of_month now = Inr eom" ..
  have "map (\<lambda>e. Some (round2x (?k e))) ?T = map (\<lambda>q. Some (round2x q)) (map ?k ?T)"
    by (simp add: comp_def)
  also have "map ?k ?T = take 10 (rev (sort (map ?k entries)))"
    by (simp add: take_map[symmetric] keys_by_wagered_desc)
  finally have w: "map (\<lambda>e. Some (round2x (?k e))) ?T =
      map (\<lambda>q. Some (round2x q)) (take 10 (rev (sort (map ?k entries))))" .
  show ?thesis
    using us eom code sorted_desc_wellformed[OF wf, of c] len w
    by (simp add: clash_try_def raise_for_status_def json_body_def)
qed

lemma clash_entry_prize:
  "clash_entry (i, e) = Inr u \<Longrightarrow> prize u = JInt (tier_prize clash_prizes (int i + 1))"
  by (auto simp: clash_entry_def bind_exn_eq_Inr)

lemma enumerated_loop_prizes:
  assumes "\<And>i e u. g (i, e) = Inr u \<Longrightarrow> prize u = JInt (tier_prize tiers (int i + 1))"
  shows "traverse g (enumerate n xs) = Inr us \<Longrightarrow>
    map prize us = map (\<lambda>i. JInt (tier_prize tiers (int i + 1))) [n ..< n + length xs]"
proof (induction xs arbitrary: n us)
  case Nil
  then show ?case by simp
next
  case (Cons x xs)
  from Cons.prems obtain u rest where
    us: "us = u # rest" and u: "g (n, x) = Inr u" and
    rest: "traverse g (enumerate (Suc n) xs) = Inr rest"
    by (auto split: sum.splits)
  have upt: "[n ..< n + length (x # xs)] = n # [Suc n ..< Suc n + length xs]"
    by (subst upt_conv_Cons) simp_all
  from Cons.IH[OF rest] assms[OF u] us show ?case unfolding upt by simp
qed

lemma upt_10: "[0 ..< 10] = [0, 1, 2, 3, 4, 5, 6, 7, 8, 9 :: nat]"
  by (simp add: upt_rec)

lemma clash_rank_prizes_table:
  "clash_rank_prizes =
     map (\<lambda>r. JInt (case map_of clash_prizes r of Some a \<Rightarrow> a | None \<Rightarrow> 0))
       [1, 2, 3, 4, 5, 6, 7, 8, 9, 10]"
  by (simp add: clash_rank_prizes_def clash_prizes_def)

lemma clash_prizes_by_rank:
  assumes "m \<le> 10"
  shows "map (\<lambda>i. JInt (tier_prize clash_prizes (int i + 1))) [0 ..< m] = take m clash_rank_prizes"
proof -
  have "map (\<lambda>i. JInt (tier_prize clash_prizes (int i + 1))) [0 ..< 10] = clash_rank_prizes"
    unfolding upt_10 by (simp add: clash_rank_prizes_def clash_prizes_def)
  then have "take m clash_rank_prizes =
      take m (map (\<lambda>i. JInt (tier_prize clash_prizes (int i + 1))) [0 ..< 10])"
    by (rule arg_cong[OF sym])
  also have "\<dots> = map (\<lambda>i. JInt (tier_prize clash_prizes (int i + 1))) (take m [0 ..< 10])"
    by (rule take_map)
  also from assms have "take m [0 ..< 10] = [0 ..< m]" by (simp add: min_def)
  finally show ?thesis by (rule sym)
qed

lemma clash_try_positions:
  assumes "clash_try c now out = Inr s"
  shows "length (users s) \<le> 10
     \<and> map rank (users s) = map (\<lambda>i. JInt (int i + 1)) [0 ..< length (users s)]
     \<and> map prize (users s) = take (length (users s)) clash_rank_prizes"
proof -
  from assms obtain xs where
    t: "traverse clash_entry (enumerate 0 (take 10 xs)) = Inr (users s)"
    by (cases out) (auto simp: clash_try_def bind_exn_eq_Inr)
  from traverse_length[OF t] have l: "length (users s) = length (take 10 xs)" by simp
  then have len: "length (users s) \<le> 10" by simp
  from enumerated_loop_ranks[of clash_entry, OF clash_entry_rank t] l
  have r: "map rank (users s) = map (\<lambda>i. JInt (int i + 1)) [0 ..< length (users s)]" by simp
  from enumerated_loop_prizes[of clash_entry, OF clash_entry_prize t] l
  have "map prize (users s) =
      map (\<lambda>i. JInt (tier_prize clash_prizes (int i + 1))) [0 ..< length (users s)]" by simp
  with clash_prizes_by_rank[OF len]
  have p: "map prize (users s) = take (length (users s)) clash_rank_prizes" by simp
  from len r p show ?thesis by simp
qed

lemma fetch_clash_positions:
  assumes "fetch_clash_data c now out = Inr s \<or> index_fetch_clash_data c now now' out = Inr s"
  shows "length (users s) \<le> 10
     \<and> map rank (users s) = map (\<lambda>i. JInt (int i + 1)) [0 ..< length (users s)]
     \<and> map prize (users s) = take (length (users s)) clash_rank_prizes"
proof -
  consider (static) "users s = []"
    | (normal) s' where "clash_try c now out = Inr s'" "users s = users s'"
    using assms
    by (auto simp: fetch_clash_data_def index_fetch_clash_data_def split: sum.splits)
  then show ?thesis
  proof cases
    case static
    then show ?thesis by simp
  next
    case normal
    with clash_try_positions[OF normal(1)] show ?thesis by simp
  qed
qed

text \<open>
  Claim C5, as the code has it. For Clash.gg, in both files, every snapshot the adapter
  returns has the first ten items of the list \<^verbatim>\<open>sorted\<close> returned as its users, with the
  ranks 1 to N in that order, and the prize of each rank is the amount the tier table of
  \<^verbatim>\<open>API_CONFIG\<close> gives it: 380, 160, 80, 50, 15, 10 and 5 for the ranks 1 to 7, and 0 for
  the ranks above the seventh tier. When the request succeeds with a list of entries whose
  amounts are numbers other than NaN, the users are the ten entries with the highest
  amounts, highest first: the snapshot is active, there are ten users (all of them if
  there are fewer than ten entries), their amounts are the ten highest, each rounded to
  two decimals, in descending order, and strictly descending before the rounding when the
  raw amounts are distinct.
\<close>

theorem clash_top_ten_by_wagered:
  assumes f: "f = fetch_clash_data c now \<or> f = index_fetch_clash_data c now now'"
  shows "(\<forall>out s. f out = Inr s \<longrightarrow>
            length (users s) \<le> 10
          \<and> map rank (users s) = map (\<lambda>i. JInt (int i + 1)) [0 ..< length (users s)]
          \<and> map prize (users s) = take (length (users s)) clash_rank_prizes)
     \<and> clash_rank_prizes =
         map (\<lambda>r. JInt (case map_of clash_prizes r of Some a \<Rightarrow> a | None \<Rightarrow> 0))
           [1, 2, 3, 4, 5, 6, 7, 8, 9, 10]
     \<and> (valid_datetime now \<and> year now < 9999 \<and> 200 \<le> code \<and> code < 300
          \<and> (\<forall>e \<in> set entries. wagered_key e \<noteq> None) \<longrightarrow>
         (\<exists>s. f (Response code (Inr (JArr entries))) = Inr s
            \<and> status s = JStr (ascii ''active'')
            \<and> length (users s) = min 10 (length entries)
            \<and> map (\<lambda>u. ord_val (wagered u)) (users s) =
                map (\<lambda>q. Some (round2x q))
                  (take 10 (rev (sort (map (\<lambda>e. the (wagered_key e)) entries))))
            \<and> sorted (rev (map (\<lambda>u. the (ord_val (wagered u))) (users s)))
            \<and> (distinct (map wagered_key entries) \<longrightarrow>
                 sorted_wrt (\<lambda>a b. b < a)
                   (take 10 (rev (sort (map (\<lambda>e. the (wagered_key e)) entries)))))))"
proof (intro conjI allI impI)
  fix out s
  assume "f out = Inr s"
  with f have a: "fetch_clash_data c now out = Inr s
      \<or> index_fetch_clash_data c now now' out = Inr s"
    by auto
  from fetch_clash_positions[OF a]
  show "length (users s) \<le> 10"
    and "map rank (users s) = map (\<lambda>i. JInt (int i + 1)) [0 ..< length (users s)]"
    and "map prize (users s) = take (length (users s)) clash_rank_prizes"
    by simp_all
next
  show "clash_rank_prizes =
         map (\<lambda>r. JInt (case map_of clash_prizes r of Some a \<Rightarrow> a | None \<Rightarrow> 0))
           [1, 2, 3, 4, 5, 6, 7, 8, 9, 10]"
    by (rule clash_rank_prizes_table)
next
  assume h: "valid_datetime now \<and> year now < 9999 \<and> 200 \<le> code \<and> code < 300
          \<and> (\<forall>e \<in> set entries. wagered_key e \<noteq> None)"
  then have now: "valid_datetime now" "year now < 9999"
    and code: "200 \<le> code" "code < 300"
    and wf: "\<forall>e \<in> set entries. wagered_key e \<noteq> None"
    by simp_all
  let ?ks = "map (\<lambda>e. the (wagered_key e)) entries"
  from clash_try_wellformed[OF now code wf, of c] obtain s0 where s0:
    "clash_try c now (Response code (Inr (JArr entries))) = Inr s0"
    "status s0 = JStr (ascii ''active'')"
    "length (users s0) = min 10 (length entries)"
    "map (\<lambda>u. ord_val (wagered u)) (users s0) =
       map (\<lambda>q. Some (round2x q)) (take 10 (rev (sort ?ks)))"
    by (elim exE conjE)
  define s where
    "s = (if f = fetch_clash_data c now then s0 else s0\<lparr>last_updated := Some now\<rparr>)"
  have fs: "f (Response code (Inr (JArr entries))) = Inr s"
    using f s0(1) by (auto simp: s_def fetch_clash_data_def index_fetch_clash_data_def)
  have us: "users s = users s0" and st: "status s = status s0"
    by (simp_all add: s_def)
  have "map (\<lambda>u. the (ord_val (wagered u))) (users s0)
      = map the (map (\<lambda>u. ord_val (wagered u)) (users s0))"
    by (simp add: comp_def)
  also have "\<dots> = map round2x (take 10 (rev (sort ?ks)))"
    unfolding s0(4) by (simp add: comp_def)
  finally have desc: "sorted (rev (map (\<lambda>u. the (ord_val (wagered u))) (users s)))"
    using sorted_rev_map_round2x[of 10 ?ks] us by simp
  have strict: "distinct (map wagered_key entries) \<longrightarrow>
      sorted_wrt (\<lambda>a b. b < a) (take 10 (rev (sort ?ks)))"
    using distinct_keys[OF wf] top_keys_strict by blast
  from fs st s0(2-4) us desc strict
  show "\<exists>s. f (Response code (Inr (JArr entries))) = Inr s
            \<and> status s = JStr (ascii ''active'')
            \<and> length (users s) = min 10 (length entries)
            \<and> map (\<lambda>u. ord_val (wagered u)) (users s) =
                map (\<lambda>q. Some (round2x q))
                  (take 10 (rev (sort (map (\<lambda>e. the (wagered_key e)) entries))))
            \<and> sorted (rev (map (\<lambda>u. the (ord_val (wagered u))) (users s)))
            \<and> (distinct (map wagered_key entries) \<longrightarrow>
                 sorted_wrt (\<lambda>a b. b < a)
                   (take 10 (rev (sort (map (\<lambda>e. the (wagered_key e)) entries)))))"
    by (intro exI[of _ s]) simp
qed

lemma upto_1_15: "[1 .. 15] = [1, 2, 3, 4, 5, 6, 7, 8, 9, 10, 11, 12, 13, 14, 15 :: int]"
  by (simp add: upto_rec1)

lemma keys15:
  "map (\<lambda>e. the (wagered_key e)) clash_entries15 =
     map (\<lambda>i. Number (of_int i)) [100, 200, 300, 400, 500, 600, 700, 800, 900, 1000,
                                     1100, 1200, 1300, 1400, 1500]"
  by (simp add: clash_entries15_def wagered_key_def upto_1_15)

lemma top15:
  "take 10 (rev (sort (map (\<lambda>e. the (wagered_key e)) clash_entries15))) =
     map (\<lambda>i. Number (of_int i)) [1500, 1400, 1300, 1200, 1100, 1000, 900, 800, 700, 600]"
  unfolding keys15 by (simp add: less_xnum_def)

text \<open>
  The theorem at 15 entries with the amounts 100, 200, ..., 1500: ten users with the ranks
  1 to 10 and the amounts 1500 down to 600; the prizes are the seven tiers, and 0 for the
  ranks 8, 9 and 10.
\<close>

theorem clash_top_ten_by_wagered_witness:
  "\<exists>s. fetch_clash_data ctx0 now0 (Response 200 (Inr (JArr clash_entries15))) = Inr s
     \<and> length clash_entries15 = 15
     \<and> distinct (map wagered_key clash_entries15)
     \<and> status s = JStr (ascii ''active'')
     \<and> length (users s) = 10
     \<and> map rank (users s) =
         [JInt 1, JInt 2, JInt 3, JInt 4, JInt 5, JInt 6, JInt 7, JInt 8, JInt 9, JInt 10]
     \<and> map (\<lambda>u. ord_val (wagered u)) (users s) =
         map (\<lambda>i. Some (Number (of_int i)))
           [1500, 1400, 1300, 1200, 1100, 1000, 900, 800, 700, 600]
     \<and> sorted (rev (map (\<lambda>u. the (ord_val (wagered u))) (users s)))
     \<and> map prize (users s) =
         [JInt 380, JInt 160, JInt 80, JInt 50, JInt 15, JInt 10, JInt 5, JInt 0, JInt 0, JInt 0]
     \<and> prize (users s ! 7) = JInt 0"
proof -
  have f: "fetch_clash_data ctx0 now0 = fetch_clash_data ctx0 now0
      \<or> fetch_clash_data ctx0 now0 = index_fetch_clash_data ctx0 now0 now0"
    by (rule disjI1) (rule refl)
  have wf: "\<forall>e \<in> set clash_entries15. wagered_key e \<noteq> None"
    by (simp add: clash_entries15_def wagered_key_def)
  have pre: "valid_datetime now0 \<and> year now0 < 9999 \<and> (200::int) \<le> 200 \<and> (200::int) < 300
      \<and> (\<forall>e \<in> set clash_entries15. wagered_key e \<noteq> None)"
    using wf by (simp add: now0_def valid_datetime_def days_in_month_def is_leap_def)
  have len: "length clash_entries15 = 15"
    by (simp add: clash_entries15_def)
  have "inj (\<lambda>i::int. Some (Number (of_int (100 * i))))"
    by (simp add: inj_on_def)
  then have dist: "distinct (map wagered_key clash_entries15)"
    by (simp add: clash_entries15_def wagered_key_def comp_def distinct_map inj_on_def)
  note t = clash_top_ten_by_wagered[OF f, where code = 200 and entries = clash_entries15]
  from t[THEN conjunct2, THEN conjunct2, rule_format, OF pre] obtain s where
    fs: "fetch_clash_data ctx0 now0 (Response 200 (Inr (JArr clash_entries15))) = Inr s"
    and st: "status s = JStr (ascii ''active'')"
    and l: "length (users s) = min 10 (length clash_entries15)"
    and w: "map (\<lambda>u. ord_val (wagered u)) (users s) =
         map (\<lambda>q. Some (round2x q))
           (take 10 (rev (sort (map (\<lambda>e. the (wagered_key e)) clash_entries15))))"
    and d: "sorted (rev (map (\<lambda>u. the (ord_val (wagered u))) (users s)))"
    by (elim exE conjE)
  from l len have l10: "length (users s) = 10" by simp
  from t[THEN conjunct1, rule_format, OF fs] l10
  have r: "map rank (users s) = map (\<lambda>i. JInt (int i + 1)) [0 ..< 10]"
    and p: "map prize (users s) = take 10 clash_rank_prizes"
    by simp_all
  from r have r': "map rank (users s) =
         [JInt 1, JInt 2, JInt 3, JInt 4, JInt 5, JInt 6, JInt 7, JInt 8, JInt 9, JInt 10]"
    unfolding upt_10 by simp
  from p have p': "map prize (users s) =
         [JInt 380, JInt 160, JInt 80, JInt 50, JInt 15, JInt 10, JInt 5, JInt 0, JInt 0, JInt 0]"
    by (simp add: clash_rank_prizes_def)
  from w have w': "map (\<lambda>u. ord_val (wagered u)) (users s) =
         map (\<lambda>i. Some (Number (of_int i)))
           [1500, 1400, 1300, 1200, 1100, 1000, 900, 800, 700, 600]"
    unfolding top15 by simp
  have "map prize (users s) ! 7 = prize (users s ! 7)"
    using l10 by (intro nth_map) simp
  with p' have p8: "prize (users s ! 7) = JInt 0" by simp
  from fs len dist st l10 r' w' d p' p8 show ?thesis
    by (intro exI[of _ s] conjI)
qed

text \<open>
  Claim C5 as stated fails when an amount is NaN, which \<^verbatim>\<open>response.json()\<close> decodes from the
  literal \<^verbatim>\<open>NaN\<close>: for three entries with the amounts 3, NaN and 7 the fetch succeeds in both
  files, but \<^verbatim>\<open>sorted\<close> moves nothing (no amount is smaller than the one after it, as
  Python compares them), so the entry with the amount 7 gets the rank 3, behind the entry
  with the amount 3.
\<close>

theorem clash_nan_amount_not_sorted:
  "\<forall>c now'.
     (\<exists>s. fetch_clash_data c now0 (Response 200 (Inr (JArr clash_entries_nan))) = Inr s
        \<and> status s = JStr (ascii ''active'')
        \<and> map rank (users s) = [JInt 1, JInt 2, JInt 3]
        \<and> map wagered (users s) = [JInt 3, JFloat NaN, JInt 7])
   \<and> (\<exists>s. index_fetch_clash_data c now0 now' (Response 200 (Inr (JArr clash_entries_nan))) = Inr s
        \<and> status s = JStr (ascii ''active'')
        \<and> map rank (users s) = [JInt 1, JInt 2, JInt 3]
        \<and> map wagered (users s) = [JInt 3, JFloat NaN, JInt 7])"
  by (simp add: fetch_clash_data_def index_fetch_clash_data_def clash_try_def
      raise_for_status_def json_body_def
      clash_entries_nan_def sorted_desc_def py_lt_def clash_entry_def
      end_of_month_def replace_date_def minus_one_second_def valid_datetime_def
      days_in_month_def is_leap_def now0_def Let_def)

section \<open>Failures of the outbound call\<close>

lemma index_clash_absorbed:
  "absorbed (clash_try c now out) (index_fetch_clash_data c now now' out) (JInt 700) ''gems''
     clash_prizes"
proof (cases "clash_try c now out")
  case (Inl e)
  then show ?thesis
    by (simp add: absorbed_def index_fetch_clash_data_def is_error_snapshot_def)
next
  case (Inr s)
  then have "currency s = ''gems'' \<and> prizes s = clash_prizes"
    by (cases out) (auto simp: clash_try_def bind_exn_eq_Inr)
  with Inr show ?thesis
    by (simp add: absorbed_def index_fetch_clash_data_def)
qed

lemma csbattle_try_static:
  "csbattle_try c out = Inr s \<Longrightarrow> currency s = ''coins'' \<and> prizes s = csbattle_prizes"
  by (cases out) (auto simp: csbattle_try_def bind_exn_eq_Inr)

lemma skinfans_try_static:
  "skinfans_try c out = Inr s \<Longrightarrow> currency s = ''coins'' \<and> prizes s = skinfans_prizes"
  by (cases out) (auto simp: skinfans_try_def bind_exn_eq_Inr)

lemma bsite_normalize_static:
  "bsite_normalize data = Inr s \<Longrightarrow> currency s = ''usd'' \<and> prizes s = bsite_prizes"
  by (auto simp: bsite_normalize_def bind_exn_eq_Inr)

lemma bsite_try_static:
  "bsite_try out = Inr s \<Longrightarrow> currency s = ''usd'' \<and> prizes s = bsite_prizes"
  by (cases out)
    (auto simp: bsite_try_def bind_exn_eq_Inr bsite_static_def
      dest: bsite_normalize_static split: if_splits)

lemma index_bsite_try_static:
  "index_bsite_try now out = Inr s \<Longrightarrow> currency s = ''usd'' \<and> prizes s = bsite_prizes"
  by (cases out)
    (auto simp: index_bsite_try_def bind_exn_eq_Inr bsite_static_def
      dest: bsite_normalize_static split: if_splits)

lemma index_csbattle_absorbed:
  "absorbed (csbattle_try c out) (index_fetch_csbattle_data c now out) (JInt 600) ''coins''
     csbattle_prizes"
  by (cases "csbattle_try c out")
    (auto simp: absorbed_def index_fetch_csbattle_data_def is_error_snapshot_def
      csbattle_static_def dest: csbattle_try_static)

lemma index_skinfans_absorbed:
  "absorbed (skinfans_try c out) (index_fetch_skinfans_data c now out) (JInt 500) ''coins''
     skinfans_prizes"
  by (cases "skinfans_try c out")
    (auto simp: absorbed_def index_fetch_skinfans_data_def is_error_snapshot_def
      skinfans_static_def dest: skinfans_try_static)

lemma index_bsite_absorbed:
  "absorbed (index_bsite_try now out) (index_fetch_bsite_data now out) (JInt 800) ''usd''
     bsite_prizes"
  by (cases "index_bsite_try now out")
    (auto simp: absorbed_def index_fetch_bsite_data_def is_error_snapshot_def
      bsite_static_def dest: index_bsite_try_static)

lemma server_csbattle_absorbed:
  "affiliate_id c \<noteq> [] \<Longrightarrow>
   absorbed (csbattle_try c out) (fetch_csbattle_data c out) (JInt 600) ''coins''
     csbattle_prizes"
  by (cases "csbattle_try c out")
    (auto simp: absorbed_def fetch_csbattle_data_def is_error_snapshot_def
      csbattle_static_def dest: csbattle_try_static)

lemma server_skinfans_absorbed:
  "token c \<noteq> [] \<Longrightarrow>
   absorbed (skinfans_try c out) (fetch_skinfans_data c out) (JInt 500) ''coins''
     skinfans_prizes"
  by (cases "skinfans_try c out")
    (auto simp: absorbed_def fetch_skinfans_data_def is_error_snapshot_def
      skinfans_static_def dest: skinfans_try_static)

lemma server_bsite_absorbed:
  "(case bsite_try out of
      Inl (HTTPException code detail) \<Rightarrow> fetch_bsite_data out = Inl (HTTPException code detail)
    | Inl (PyError msg) \<Rightarrow>
        absorbed (bsite_try out) (fetch_bsite_data out) (JInt 800) ''usd'' bsite_prizes
    | Inr s \<Rightarrow>
        absorbed (bsite_try out) (fetch_bsite_data out) (JInt 800) ''usd'' bsite_prizes)"
  by (auto simp: absorbed_def fetch_bsite_data_def is_error_snapshot_def
      bsite_static_def dest: bsite_try_static split: sum.splits exn.splits)

lemma server_clash_raises:
  "(case clash_try c now out of
      Inr s \<Rightarrow> fetch_clash_data c now out = Inr s
    | Inl e \<Rightarrow> fetch_clash_data c now out =
        Inl (HTTPException 500 (''Failed to fetch Clash.gg data: '' @ exn_str e)))"
  by (simp add: fetch_clash_data_def split: sum.splits)

lemma call_failed_raises:
  assumes "call_failed out"
  shows "(\<exists>e. clash_try c now out = Inl e) \<and> (\<exists>e. csbattle_try c out = Inl e)
    \<and> (\<exists>e. skinfans_try c out = Inl e)"
  using assms
  by (cases out)
    (auto simp: call_failed_def clash_try_def csbattle_try_def skinfans_try_def
      raise_for_status_def json_body_def split: sum.splits)

lemma bsite_call_failed_raises:
  assumes "bsite_call_failed out"
  shows "\<exists>msg. bsite_try out = Inl (PyError msg) \<and> index_bsite_try now out = Inl (PyError msg)"
  using assms
  by (cases out)
    (auto simp: bsite_call_failed_def bsite_try_def index_bsite_try_def json_body_def
      split: sum.splits)

lemma bsite_http_exceptions:
  assumes "py_get data ''maintenance'' JNull = Inr m" "\<not> truthy m"
  shows "code \<noteq> 200 \<Longrightarrow> fetch_bsite_data (Response code (Inr data))
           = Inl (HTTPException code (''B.site API error: '' @ show_int code))"
    and "py_get data ''error'' JNull = Inr err \<Longrightarrow> truthy err \<Longrightarrow>
         fetch_bsite_data (Response 200 (Inr data))
           = Inl (HTTPException 500 ''B.site API returned an error'')"
  using assms
  by (simp_all add: fetch_bsite_data_def bsite_try_def json_body_def)

lemma absorbed_raise:
  assumes "absorbed (Inl e) r pool cur tiers"
  shows "\<exists>s. r = Inr s \<and> is_error_snapshot pool cur tiers s"
  using assms by (cases r) (simp_all add: absorbed_def)

text \<open>
  Claim C1, as the code has it. In \<^verbatim>\<open>api/index.py\<close> every adapter returns a snapshot
  whatever the outbound call does, with the static currency and tiers of its source, and
  the error snapshot (status "error", a message, no users, the static prize pool) whenever
  its \<^verbatim>\<open>try\<close> block raises; a timeout, a transport error, a body that is no JSON and (where
  \<^verbatim>\<open>raise_for_status\<close> is called) a status outside 2xx make it raise. In \<^verbatim>\<open>server.py\<close>
  the same holds for CSBattle and Skin.fans when they are configured (without the
  affiliate id or the token they return the "not_configured" snapshot); the B.site adapter
  absorbs every exception but the HTTPException it raises itself on a status other than 200
  or on the provider's error flag; the Clash.gg adapter turns every exception into an
  HTTPException 500 raised to its caller.
\<close>

theorem adapters_absorb_or_raise:
  "absorbed (clash_try c now out) (index_fetch_clash_data c now now' out)
      (JInt 700) ''gems'' clash_prizes
   \<and> absorbed (index_bsite_try now out) (index_fetch_bsite_data now out)
      (JInt 800) ''usd'' bsite_prizes
   \<and> absorbed (csbattle_try c out) (index_fetch_csbattle_data c now out)
      (JInt 600) ''coins'' csbattle_prizes
   \<and> absorbed (skinfans_try c out) (index_fetch_skinfans_data c now out)
      (JInt 500) ''coins'' skinfans_prizes
   \<and> (if affiliate_id c = []
       then fetch_csbattle_data c out =
              Inr (csbattle_static ''not_configured'' ''CSBattle API not configured.'')
       else absorbed (csbattle_try c out) (fetch_csbattle_data c out)
              (JInt 600) ''coins'' csbattle_prizes)
   \<and> (if token c = []
       then fetch_skinfans_data c out =
              Inr (skinfans_static ''not_configured'' ''Skin.fans API not configured.'')
       else absorbed (skinfans_try c out) (fetch_skinfans_data c out)
              (JInt 500) ''coins'' skinfans_prizes)
   \<and> (case bsite_try out of
         Inl (HTTPException code detail) \<Rightarrow>
           fetch_bsite_data out = Inl (HTTPException code detail)
       | Inl (PyError msg) \<Rightarrow>
           absorbed (bsite_try out) (fetch_bsite_data out) (JInt 800) ''usd'' bsite_prizes
       | Inr s \<Rightarrow>
           absorbed (bsite_try out) (fetch_bsite_data out) (JInt 800) ''usd'' bsite_prizes)
   \<and> (case clash_try c now out of
         Inr s \<Rightarrow> fetch_clash_data c now out = Inr s
       | Inl e \<Rightarrow> fetch_clash_data c now out =
           Inl (HTTPException 500 (''Failed to fetch Clash.gg data: '' @ exn_str e)))
   \<and> (call_failed out \<longrightarrow>
         (\<exists>e. clash_try c now out = Inl e) \<and> (\<exists>e. csbattle_try c out = Inl e)
         \<and> (\<exists>e. skinfans_try c out = Inl e))
   \<and> (bsite_call_failed out \<longrightarrow>
         (\<exists>msg. bsite_try out = Inl (PyError msg)
            \<and> index_bsite_try now out = Inl (PyError msg)))
   \<and> (out = Response code (Inr data) \<longrightarrow> py_get data ''maintenance'' JNull = Inr m
         \<longrightarrow> \<not> truthy m \<longrightarrow>
         (code \<noteq> 200 \<longrightarrow> fetch_bsite_data out =
            Inl (HTTPException code (''B.site API error: '' @ show_int code)))
         \<and> (code = 200 \<longrightarrow> py_get data ''error'' JNull = Inr err \<longrightarrow> truthy err \<longrightarrow>
              fetch_bsite_data out = Inl (HTTPException 500 ''B.site API returned an error'')))"
proof -
  have cs: "if affiliate_id c = []
       then fetch_csbattle_data c out =
              Inr (csbattle_static ''not_configured'' ''CSBattle API not configured.'')
       else absorbed (csbattle_try c out) (fetch_csbattle_data c out)
              (JInt 600) ''coins'' csbattle_prizes"
    using server_csbattle_absorbed[of c out] by (simp add: fetch_csbattle_data_def)
  have sf: "if token c = []
       then fetch_skinfans_data c out =
              Inr (skinfans_static ''not_configured'' ''Skin.fans API not configured.'')
       else absorbed (skinfans_try c out) (fetch_skinfans_data c out)
              (JInt 500) ''coins'' skinfans_prizes"
    using server_skinfans_absorbed[of c out] by (simp add: fetch_skinfans_data_def)
  have failed: "call_failed out \<longrightarrow>
         (\<exists>e. clash_try c now out = Inl e) \<and> (\<exists>e. csbattle_try c out = Inl e)
         \<and> (\<exists>e. skinfans_try c out = Inl e)"
    using call_failed_raises[of out c now] by (rule impI)
  have bfailed: "bsite_call_failed out \<longrightarrow>
         (\<exists>msg. bsite_try out = Inl (PyError msg)
            \<and> index_bsite_try now out = Inl (PyError msg))"
    using bsite_call_failed_raises[of out now] by (rule impI)
  have http: "out = Response code (Inr data) \<longrightarrow> py_get data ''maintenance'' JNull = Inr m
         \<longrightarrow> \<not> truthy m \<longrightarrow>
         (code \<noteq> 200 \<longrightarrow> fetch_bsite_data out =
            Inl (HTTPException code (''B.site API error: '' @ show_int code)))
         \<and> (code = 200 \<longrightarrow> py_get data ''error'' JNull = Inr err \<longrightarrow> truthy err \<longrightarrow>
              fetch_bsite_data out = Inl (HTTPException 500 ''B.site API returned an error''))"
    using bsite_http_exceptions[of data m] by blast
  show ?thesis
    by (intro conjI index_clash_absorbed index_bsite_absorbed index_csbattle_absorbed
        index_skinfans_absorbed cs sf server_bsite_absorbed server_clash_raises failed
        bfailed http)
qed

text \<open>
  The theorem on a timeout, on a status 503, on a body that is no JSON and on an error flag.
\<close>

theorem adapters_absorb_or_raise_witness:
  "(\<exists>s. index_fetch_clash_data ctx0 now0 now0 (Transport_error ''timed out'') = Inr s
        \<and> is_error_snapshot (JInt 700) ''gems'' clash_prizes s)
   \<and> (\<exists>s. fetch_csbattle_data ctx0 (Response 503 (Inr (JObj []))) = Inr s
        \<and> is_error_snapshot (JInt 600) ''coins'' csbattle_prizes s)
   \<and> (\<exists>s. fetch_skinfans_data ctx0 (Response 200 (Inl ''Expecting value'')) = Inr s
        \<and> is_error_snapshot (JInt 500) ''coins'' skinfans_prizes s)
   \<and> (\<exists>s. fetch_bsite_data (Transport_error ''timed out'') = Inr s
        \<and> is_error_snapshot (JInt 800) ''usd'' bsite_prizes s)
   \<and> fetch_bsite_data (Response 503 (Inr (JObj []))) =
        Inl (HTTPException 503 (''B.site API error: '' @ show_int 503))
   \<and> fetch_bsite_data (Response 200 (Inr (JObj [(''error'', JBool True)]))) =
        Inl (HTTPException 500 ''B.site API returned an error'')"
proof -
  let ?t = "Transport_error ''timed out''"
  let ?r503 = "Response 503 (Inr (JObj []))"
  let ?bad = "Response 200 (Inl ''Expecting value'')"
  let ?err = "Response 200 (Inr (JObj [(''error'', JBool True)]))"
  note at_t = adapters_absorb_or_raise[of ctx0 now0 ?t now0 0 JNull JNull JNull]
  note at_503 = adapters_absorb_or_raise[of ctx0 now0 ?r503 now0 503 "JObj []" JNull JNull]
  note at_bad = adapters_absorb_or_raise[of ctx0 now0 ?bad now0 0 JNull JNull JNull]
  note at_err = adapters_absorb_or_raise[of ctx0 now0 ?err now0 200
      "JObj [(''error'', JBool True)]" JNull "JBool True"]
  have cfg: "affiliate_id ctx0 \<noteq> []" "token ctx0 \<noteq> []"
    by (simp_all add: ctx0_def)
  have f_t: "call_failed ?t" and f_503: "call_failed ?r503" and f_bad: "call_failed ?bad"
    and b_t: "bsite_call_failed ?t"
    by (simp_all add: call_failed_def bsite_call_failed_def)
  \<comment> \<open>Clash.gg, api/index.py, on a timeout\<close>
  from at_t f_t obtain e1 where "clash_try ctx0 now0 ?t = Inl e1" by blast
  with at_t have "absorbed (Inl e1) (index_fetch_clash_data ctx0 now0 now0 ?t)
      (JInt 700) ''gems'' clash_prizes" by simp
  then have 1: "\<exists>s. index_fetch_clash_data ctx0 now0 now0 ?t = Inr s
      \<and> is_error_snapshot (JInt 700) ''gems'' clash_prizes s"
    by (rule absorbed_raise)
  \<comment> \<open>CSBattle, server.py, on a 503\<close>
  from at_503 f_503 obtain e2 where "csbattle_try ctx0 ?r503 = Inl e2" by blast
  with at_503 cfg have "absorbed (Inl e2) (fetch_csbattle_data ctx0 ?r503)
      (JInt 600) ''coins'' csbattle_prizes" by simp
  then have 2: "\<exists>s. fetch_csbattle_data ctx0 ?r503 = Inr s
      \<and> is_error_snapshot (JInt 600) ''coins'' csbattle_prizes s"
    by (rule absorbed_raise)
  \<comment> \<open>Skin.fans, server.py, on a body that is no JSON\<close>
  from at_bad f_bad obtain e3 where "skinfans_try ctx0 ?bad = Inl e3" by blast
  with at_bad cfg have "absorbed (Inl e3) (fetch_skinfans_data ctx0 ?bad)
      (JInt 500) ''coins'' skinfans_prizes" by simp
  then have 3: "\<exists>s. fetch_skinfans_data ctx0 ?bad = Inr s
      \<and> is_error_snapshot (JInt 500) ''coins'' skinfans_prizes s"
    by (rule absorbed_raise)
  \<comment> \<open>B.site, server.py, on a timeout\<close>
  from at_t b_t obtain msg where b: "bsite_try ?t = Inl (PyError msg)" by blast
  with at_t have "absorbed (Inl (PyError msg)) (fetch_bsite_data ?t)
      (JInt 800) ''usd'' bsite_prizes" by simp
  then have 4: "\<exists>s. fetch_bsite_data ?t = Inr s
      \<and> is_error_snapshot (JInt 800) ''usd'' bsite_prizes s"
    by (rule absorbed_raise)
  \<comment> \<open>B.site, server.py, on a 503 and on an error flag\<close>
  from at_503 have 5: "fetch_bsite_data ?r503 =
      Inl (HTTPException 503 (''B.site API error: '' @ show_int 503))" by simp
  from at_err have 6: "fetch_bsite_data ?err =
      Inl (HTTPException 500 ''B.site API returned an error'')" by simp
  from 1 2 3 4 5 6 show ?thesis by (intro conjI)
qed

text \<open>
  Claim C1 as stated fails in \<^verbatim>\<open>server.py\<close>: on a timeout the Clash.gg adapter raises an
  HTTPException 500 to its caller and returns no snapshot.
\<close>

theorem fetch_clash_data_raises:
  "fetch_clash_data ctx0 now0 (Transport_error ''timed out'') =
     Inl (HTTPException 500 ''Failed to fetch Clash.gg data: timed out'')"
  by (simp add: fetch_clash_data_def clash_try_def)

section \<open>The cache: hit, miss and write-through\<close>

lemma fetch_functions_valid:
  assumes "sid \<in> set valid_sites"
  shows "\<exists>fetch. fetch_functions c sid = Some fetch"
  using assms by (auto simp: valid_sites_def fetch_functions_def)

lemma fetch_functions_invalid:
  assumes "sid \<notin> set valid_sites"
  shows "fetch_functions c sid = None"
  using assms by (auto simp: valid_sites_def fetch_functions_def)

lemma cache_lookup_Some_iff:
  "cache_lookup st now sid = Some d \<longleftrightarrow>
     (\<exists>store r. db st = Some store \<and> store sid = Some r
        \<and> timedelta_micros now (c_last_updated r) < 5 * 60 * 1000000
        \<and> d = (c_data r)\<lparr>last_updated := Some (c_last_updated r)\<rparr>)"
  by (auto simp: cache_lookup_def cache_duration_def split: option.splits)

lemma cache_lookup_None_iff:
  "cache_lookup st now sid = None \<longleftrightarrow>
     \<not> (\<exists>store r. db st = Some store \<and> store sid = Some r
        \<and> timedelta_micros now (c_last_updated r) < 5 * 60 * 1000000)"
  by (auto simp: cache_lookup_def cache_duration_def split: option.splits)

lemma get_cached_or_fetch_hit:
  assumes "db st = Some store" "store sid = Some r"
    and "timedelta_micros now (c_last_updated r) < 5 * 60 * 1000000"
  shows "get_cached_or_fetch c now up sid st =
     (Inr ((c_data r)\<lparr>last_updated := Some (c_last_updated r)\<rparr>), st)"
  using assms by (simp add: get_cached_or_fetch_def cache_lookup_def cache_duration_def)

lemma get_cached_or_fetch_miss:
  assumes "cache_lookup st now sid = None" "fetch_functions c sid = Some fetch"
  shows "get_cached_or_fetch c now up sid st =
     (case fetch up of
        Inl e \<Rightarrow> (Inl e, st\<lparr>fetched := fetched st @ [sid]\<rparr>)
      | Inr d \<Rightarrow> (Inr (d\<lparr>last_updated := Some now\<rparr>),
                  cache_upsert sid (d\<lparr>last_updated := Some now\<rparr>) now
                    (st\<lparr>fetched := fetched st @ [sid]\<rparr>)))"
  using assms by (simp add: get_cached_or_fetch_def Let_def split: sum.splits)

lemma db_cache_upsert:
  "db (cache_upsert sid d now st) = map_option (\<lambda>store. store(sid \<mapsto> \<lparr>c_data = d, c_last_updated = now\<rparr>)) (db st)"
  by (simp add: cache_upsert_def split: option.splits)

lemma fetched_cache_upsert [simp]: "fetched (cache_upsert sid d now st) = fetched st"
  by (simp add: cache_upsert_def split: option.splits)

lemma fetched_cache_delete [simp]: "fetched (cache_delete sid st) = fetched st"
  by (simp add: cache_delete_def split: option.splits)

lemma cache_lookup_after_delete [simp]: "cache_lookup (cache_delete sid st) now sid = None"
  by (simp add: cache_lookup_def cache_delete_def split: option.splits)

lemma upsert_state:
  "cache_upsert sid d now (st\<lparr>fetched := xs\<rparr>) =
     st\<lparr>fetched := xs,
        db := map_option (\<lambda>store. store(sid \<mapsto> \<lparr>c_data = d, c_last_updated = now\<rparr>)) (db st)\<rparr>"
  by (simp add: cache_upsert_def split: option.splits)

lemma age_now0: "timedelta_micros now0 stamp0 = 185000000"
  by (simp add: timedelta_micros_def to_micros_def now0_def stamp0_def)

lemma age_stale: "timedelta_micros (now0\<lparr>minute := 25, second := 0\<rparr>) stamp0 = 300000000"
  by (simp add: timedelta_micros_def to_micros_def now0_def stamp0_def)

lemma fetch_csbattle_answered:
  "fetch_csbattle_data ctx0 (reply answered) =
     Inr \<lparr>site_id = ''csbattle'', site_name = ''CSBattle'', users = [],
          prize_pool = JInt 600, currency = ''coins'', prizes = csbattle_prizes,
          countdown_end = ConfigDate ''2026-02-18 20:30:00'', status = JStr (ascii ''active''),
          message = None, last_updated = None\<rparr>"
  by (simp add: fetch_csbattle_data_def csbattle_try_def ctx0_def answered_def
      raise_for_status_def json_body_def sorted_desc_def)

text \<open>
  Claim C7, as the code has it. For every known site, \<^verbatim>\<open>get_cached_or_fetch\<close> of
  \<^verbatim>\<open>server.py\<close> returns the data of the cache record, with \<^verbatim>\<open>last_updated\<close> taken from the
  record, and leaves the state as it is (no adapter is called, nothing is written), when
  the store is connected, holds a record of the site, and the clock reading minus the
  record's \<^verbatim>\<open>last_updated\<close> is strictly less than 5 minutes. In every other case (no
  record, or a record of 5 minutes or more; a stale record is not deleted) it calls the
  adapter of the site once. If the adapter returns a snapshot, that snapshot is stamped with
  the clock reading, written to the record of the site (if the store is connected) and
  returned. If the adapter raises, the exception goes to the caller and nothing is written.
  Without a store every call is such a miss, the state stays without a store, and the
  adapter is called.
\<close>

theorem get_cached_or_fetch_hit_or_fetch:
  assumes "sid \<in> set valid_sites"
  shows "\<exists>fetch. fetch_functions c sid = Some fetch
    \<and> (\<forall>store r. db st = Some store \<longrightarrow> store sid = Some r
          \<longrightarrow> timedelta_micros now (c_last_updated r) < 5 * 60 * 1000000
          \<longrightarrow> get_cached_or_fetch c now up sid st =
                (Inr ((c_data r)\<lparr>last_updated := Some (c_last_updated r)\<rparr>), st))
    \<and> (\<not> (\<exists>store r. db st = Some store \<and> store sid = Some r
              \<and> timedelta_micros now (c_last_updated r) < 5 * 60 * 1000000)
        \<longrightarrow> (case fetch up of
               Inr d \<Rightarrow>
                 get_cached_or_fetch c now up sid st =
                   (Inr (d\<lparr>last_updated := Some now\<rparr>),
                    st\<lparr>fetched := fetched st @ [sid],
                       db := map_option
                         (\<lambda>store. store(sid \<mapsto> \<lparr>c_data = d\<lparr>last_updated := Some now\<rparr>,
                                                  c_last_updated = now\<rparr>))
                         (db st)\<rparr>)
             | Inl e \<Rightarrow>
                 get_cached_or_fetch c now up sid st =
                   (Inl e, st\<lparr>fetched := fetched st @ [sid]\<rparr>)))
    \<and> (db st = None \<longrightarrow>
          db (snd (get_cached_or_fetch c now up sid st)) = None
          \<and> fetched (snd (get_cached_or_fetch c now up sid st)) = fetched st @ [sid])"
proof -
  from fetch_functions_valid[OF assms] obtain fetch where f: "fetch_functions c sid = Some fetch" ..
  have hit: "\<forall>store r. db st = Some store \<longrightarrow> store sid = Some r
          \<longrightarrow> timedelta_micros now (c_last_updated r) < 5 * 60 * 1000000
          \<longrightarrow> get_cached_or_fetch c now up sid st =
                (Inr ((c_data r)\<lparr>last_updated := Some (c_last_updated r)\<rparr>), st)"
    using get_cached_or_fetch_hit by blast
  have miss: "\<not> (\<exists>store r. db st = Some store \<and> store sid = Some r
              \<and> timedelta_micros now (c_last_updated r) < 5 * 60 * 1000000)
        \<longrightarrow> (case fetch up of
               Inr d \<Rightarrow>
                 get_cached_or_fetch c now up sid st =
                   (Inr (d\<lparr>last_updated := Some now\<rparr>),
                    st\<lparr>fetched := fetched st @ [sid],
                       db := map_option
                         (\<lambda>store. store(sid \<mapsto> \<lparr>c_data = d\<lparr>last_updated := Some now\<rparr>,
                                                  c_last_updated = now\<rparr>))
                         (db st)\<rparr>)
             | Inl e \<Rightarrow>
                 get_cached_or_fetch c now up sid st =
                   (Inl e, st\<lparr>fetched := fetched st @ [sid]\<rparr>))"
  proof
    assume "\<not> (\<exists>store r. db st = Some store \<and> store sid = Some r
              \<and> timedelta_micros now (c_last_updated r) < 5 * 60 * 1000000)"
    then have "cache_lookup st now sid = None" by (rule cache_lookup_None_iff[THEN iffD2])
    from get_cached_or_fetch_miss[OF this f, of up] show "case fetch up of
               Inr d \<Rightarrow>
                 get_cached_or_fetch c now up sid st =
                   (Inr (d\<lparr>last_updated := Some now\<rparr>),
                    st\<lparr>fetched := fetched st @ [sid],
                       db := map_option
                         (\<lambda>store. store(sid \<mapsto> \<lparr>c_data = d\<lparr>last_updated := Some now\<rparr>,
                                                  c_last_updated = now\<rparr>))
                         (db st)\<rparr>)
             | Inl e \<Rightarrow>
                 get_cached_or_fetch c now up sid st =
                   (Inl e, st\<lparr>fetched := fetched st @ [sid]\<rparr>)"
      by (simp add: upsert_state split: sum.splits)
  qed
  have off: "db st = None \<longrightarrow>
          db (snd (get_cached_or_fetch c now up sid st)) = None
          \<and> fetched (snd (get_cached_or_fetch c now up sid st)) = fetched st @ [sid]"
  proof
    assume n: "db st = None"
    then have "cache_lookup st now sid = None" by (simp add: cache_lookup_def)
    from get_cached_or_fetch_miss[OF this f, of up] n
    show "db (snd (get_cached_or_fetch c now up sid st)) = None
          \<and> fetched (snd (get_cached_or_fetch c now up sid st)) = fetched st @ [sid]"
      by (simp add: upsert_state split: sum.splits)
  qed
  from f hit miss off show ?thesis by (intro exI[of _ fetch] conjI)
qed

text \<open>
  The theorem on a store whose record of CSBattle, an error snapshot, was written at
  14:20:00. At 14:23:05 the record is served as it is, with its own \<^verbatim>\<open>last_updated\<close>, and
  no request is sent. At 14:25:00 the record is exactly 5 minutes old: the adapter is
  called, and its snapshot is stamped 14:25:00, stored and returned.
\<close>

theorem get_cached_or_fetch_hit_or_fetch_witness:
  "get_cached_or_fetch ctx0 now0 answered ''csbattle'' store0 =
     (Inr ((csbattle_static ''error'' ''timed out'')\<lparr>last_updated := Some stamp0\<rparr>), store0)
   \<and> (\<exists>d st'. get_cached_or_fetch ctx0 (now0\<lparr>minute := 25, second := 0\<rparr>) answered
                 ''csbattle'' store0 = (Inr d, st')
         \<and> status d = JStr (ascii ''active'')
         \<and> last_updated d = Some (now0\<lparr>minute := 25, second := 0\<rparr>)
         \<and> fetched st' = [''csbattle'']
         \<and> (\<exists>store. db st' = Some store \<and> map_option c_data (store ''csbattle'') = Some d))"
proof -
  let ?now1 = "now0\<lparr>minute := 25, second := 0\<rparr>"
  let ?r = "\<lparr>c_data = (csbattle_static ''error'' ''timed out'')\<lparr>last_updated := Some stamp0\<rparr>,
             c_last_updated = stamp0\<rparr>"
  let ?store = "(\<lambda>sid. None)(''csbattle'' \<mapsto> ?r)"
  have v: "''csbattle'' \<in> set valid_sites" by (simp add: valid_sites_def)
  have db0: "db store0 = Some ?store" by (simp add: store0_def)
  have r0: "?store ''csbattle'' = Some ?r" by simp
  have fresh: "timedelta_micros now0 (c_last_updated ?r) < 5 * 60 * 1000000"
    by (simp add: age_now0)
  \<comment> \<open>a hit: the record is 185 seconds old\<close>
  from get_cached_or_fetch_hit_or_fetch[OF v, of ctx0 store0 now0 answered]
  obtain fetch0 where
    h: "\<forall>store r. db store0 = Some store \<longrightarrow> store ''csbattle'' = Some r
          \<longrightarrow> timedelta_micros now0 (c_last_updated r) < 5 * 60 * 1000000
          \<longrightarrow> get_cached_or_fetch ctx0 now0 answered ''csbattle'' store0 =
                (Inr ((c_data r)\<lparr>last_updated := Some (c_last_updated r)\<rparr>), store0)"
    by (elim exE conjE)
  from h[rule_format, OF db0 r0 fresh]
  have "get_cached_or_fetch ctx0 now0 answered ''csbattle'' store0 =
      (Inr ((c_data ?r)\<lparr>last_updated := Some (c_last_updated ?r)\<rparr>), store0)" .
  then have 1: "get_cached_or_fetch ctx0 now0 answered ''csbattle'' store0 =
      (Inr ((csbattle_static ''error'' ''timed out'')\<lparr>last_updated := Some stamp0\<rparr>), store0)"
    by simp
  \<comment> \<open>a miss: the record is exactly five minutes old\<close>
  have stale: "\<not> (\<exists>store r. db store0 = Some store \<and> store ''csbattle'' = Some r
        \<and> timedelta_micros ?now1 (c_last_updated r) < 5 * 60 * 1000000)"
    using age_stale by (auto simp: store0_def)
  from get_cached_or_fetch_hit_or_fetch[OF v, of ctx0 store0 ?now1 answered]
  obtain fetch where f: "fetch_functions ctx0 ''csbattle'' = Some fetch"
    and m: "\<not> (\<exists>store r. db store0 = Some store \<and> store ''csbattle'' = Some r
              \<and> timedelta_micros ?now1 (c_last_updated r) < 5 * 60 * 1000000)
        \<longrightarrow> (case fetch answered of
               Inr d \<Rightarrow>
                 get_cached_or_fetch ctx0 ?now1 answered ''csbattle'' store0 =
                   (Inr (d\<lparr>last_updated := Some ?now1\<rparr>),
                    store0\<lparr>fetched := fetched store0 @ [''csbattle''],
                       db := map_option
                         (\<lambda>store. store(''csbattle'' \<mapsto> \<lparr>c_data = d\<lparr>last_updated := Some ?now1\<rparr>,
                                                  c_last_updated = ?now1\<rparr>))
                         (db store0)\<rparr>)
             | Inl e \<Rightarrow>
                 get_cached_or_fetch ctx0 ?now1 answered ''csbattle'' store0 =
                   (Inl e, store0\<lparr>fetched := fetched store0 @ [''csbattle'']\<rparr>))"
    by (elim exE conjE)
  from f have "fetch = (\<lambda>u. fetch_csbattle_data ctx0 (reply u))"
    by (simp add: fetch_functions_def)
  then have "fetch answered = fetch_csbattle_data ctx0 (reply answered)" by simp
  with m[rule_format, OF stale] fetch_csbattle_answered
  have 2: "\<exists>d st'. get_cached_or_fetch ctx0 ?now1 answered ''csbattle'' store0 = (Inr d, st')
         \<and> status d = JStr (ascii ''active'')
         \<and> last_updated d = Some ?now1
         \<and> fetched st' = [''csbattle'']
         \<and> (\<exists>store. db st' = Some store \<and> map_option c_data (store ''csbattle'') = Some d)"
    by (simp add: store0_def)
  from 1 2 show ?thesis by (rule conjI)
qed

text \<open>
  Claim C7 as stated fails where the adapter raises: on an empty store, with Clash.gg
  timing out, \<^verbatim>\<open>get_cached_or_fetch\<close> returns no snapshot but raises the HTTPException 500
  of \<^verbatim>\<open>fetch_clash_data\<close>, and the store stays empty.
\<close>

theorem get_cached_or_fetch_raises:
  "get_cached_or_fetch ctx0 now0 timed_out ''clash'' empty_store =
     (Inl (HTTPException 500 ''Failed to fetch Clash.gg data: timed out''),
      empty_store\<lparr>fetched := [''clash'']\<rparr>)"
  by (simp add: get_cached_or_fetch_def cache_lookup_def empty_store_def fetch_functions_def
      timed_out_def fetch_clash_data_def clash_try_def)



section \<open>Forced refresh\<close>

text \<open>
  Claim C8. \<^verbatim>\<open>refresh_leaderboard\<close> of \<^verbatim>\<open>server.py\<close>, for a site that is not one of the four,
  raises the HTTPException 404 that lists the valid sites and leaves the state as it is.
  For a valid site it calls the adapter exactly once whatever the cache holds (the record
  of the site is deleted first): if the adapter raises, its exception goes to the caller
  and the record stays deleted; if it returns a snapshot, the answer is the message
  "Refreshed <site> leaderboard" with that snapshot stamped with the clock reading, and the
  snapshot is written to the record of the site.
\<close>

theorem refresh_leaderboard_spec:
  "(sid \<notin> set valid_sites \<longrightarrow>
      refresh_leaderboard c now up sid st =
        (Inl (HTTPException 404 ''Invalid site. Valid sites: clash, bsite, csbattle, skinfans''),
         st))
   \<and> (sid \<in> set valid_sites \<longrightarrow>
       (\<exists>fetch. fetch_functions c sid = Some fetch
          \<and> fetched (snd (refresh_leaderboard c now up sid st)) = fetched st @ [sid]
          \<and> (case fetch up of
               Inl e \<Rightarrow>
                 refresh_leaderboard c now up sid st =
                   (Inl e, (cache_delete sid st)\<lparr>fetched := fetched st @ [sid]\<rparr>)
             | Inr d \<Rightarrow>
                 refresh_leaderboard c now up sid st =
                   (Inr (''Refreshed '' @ sid @ '' leaderboard'', d\<lparr>last_updated := Some now\<rparr>),
                    cache_upsert sid (d\<lparr>last_updated := Some now\<rparr>) now
                      ((cache_delete sid st)\<lparr>fetched := fetched st @ [sid]\<rparr>)))))"
proof (intro conjI impI)
  assume "sid \<notin> set valid_sites"
  then show "refresh_leaderboard c now up sid st =
        (Inl (HTTPException 404 ''Invalid site. Valid sites: clash, bsite, csbattle, skinfans''),
         st)"
    by (simp add: refresh_leaderboard_def invalid_site_def)
next
  assume v: "sid \<in> set valid_sites"
  from fetch_functions_valid[OF v] obtain fetch where f: "fetch_functions c sid = Some fetch" ..
  have l: "cache_lookup (cache_delete sid st) now sid = None" by simp
  note g = get_cached_or_fetch_miss[OF l f, of up]
  have 1: "fetched (snd (refresh_leaderboard c now up sid st)) = fetched st @ [sid]"
    using v g by (simp add: refresh_leaderboard_def split: sum.splits)
  have 2: "case fetch up of
               Inl e \<Rightarrow>
                 refresh_leaderboard c now up sid st =
                   (Inl e, (cache_delete sid st)\<lparr>fetched := fetched st @ [sid]\<rparr>)
             | Inr d \<Rightarrow>
                 refresh_leaderboard c now up sid st =
                   (Inr (''Refreshed '' @ sid @ '' leaderboard'', d\<lparr>last_updated := Some now\<rparr>),
                    cache_upsert sid (d\<lparr>last_updated := Some now\<rparr>) now
                      ((cache_delete sid st)\<lparr>fetched := fetched st @ [sid]\<rparr>))"
    using v g by (simp add: refresh_leaderboard_def split: sum.splits)
  from f 1 2 show "\<exists>fetch. fetch_functions c sid = Some fetch
          \<and> fetched (snd (refresh_leaderboard c now up sid st)) = fetched st @ [sid]
          \<and> (case fetch up of
               Inl e \<Rightarrow>
                 refresh_leaderboard c now up sid st =
                   (Inl e, (cache_delete sid st)\<lparr>fetched := fetched st @ [sid]\<rparr>)
             | Inr d \<Rightarrow>
                 refresh_leaderboard c now up sid st =
                   (Inr (''Refreshed '' @ sid @ '' leaderboard'', d\<lparr>last_updated := Some now\<rparr>),
                    cache_upsert sid (d\<lparr>last_updated := Some now\<rparr>) now
                      ((cache_delete sid st)\<lparr>fetched := fetched st @ [sid]\<rparr>)))"
    by (intro exI[of _ fetch] conjI)
qed

text \<open>
  The theorem on the store that holds a record of CSBattle written 185 seconds ago: the
  site "stake" is refused with 404 and the store is untouched; the refresh of CSBattle
  sends a request although the record is fresh, and returns and stores the snapshot of the
  provider's answer, stamped 14:23:05.
\<close>

theorem refresh_leaderboard_spec_witness:
  "refresh_leaderboard ctx0 now0 answered ''stake'' store0 =
     (Inl (HTTPException 404 ''Invalid site. Valid sites: clash, bsite, csbattle, skinfans''),
      store0)
   \<and> fetched (snd (refresh_leaderboard ctx0 now0 answered ''csbattle'' store0)) = [''csbattle'']
   \<and> (\<exists>d st'. refresh_leaderboard ctx0 now0 answered ''csbattle'' store0 =
           (Inr (''Refreshed csbattle leaderboard'', d), st')
         \<and> status d = JStr (ascii ''active'') \<and> last_updated d = Some now0
         \<and> cache_lookup st' now0 ''csbattle'' = Some d)"
proof -
  have n: "''stake'' \<notin> set valid_sites" by (simp add: valid_sites_def)
  have v: "''csbattle'' \<in> set valid_sites" by (simp add: valid_sites_def)
  note a = refresh_leaderboard_spec[where sid = "''stake''" and c = ctx0 and now = now0
      and up = answered and st = store0, THEN conjunct1, rule_format, OF n]
  note b = refresh_leaderboard_spec[where sid = "''csbattle''" and c = ctx0 and now = now0
      and up = answered and st = store0, THEN conjunct2, rule_format, OF v]
  from b obtain fetch where f: "fetch_functions ctx0 ''csbattle'' = Some fetch"
    and t: "fetched (snd (refresh_leaderboard ctx0 now0 answered ''csbattle'' store0)) =
        fetched store0 @ [''csbattle'']"
    and r: "case fetch answered of
               Inl e \<Rightarrow>
                 refresh_leaderboard ctx0 now0 answered ''csbattle'' store0 =
                   (Inl e, (cache_delete ''csbattle'' store0)\<lparr>fetched := fetched store0 @ [''csbattle'']\<rparr>)
             | Inr d \<Rightarrow>
                 refresh_leaderboard ctx0 now0 answered ''csbattle'' store0 =
                   (Inr (''Refreshed '' @ ''csbattle'' @ '' leaderboard'', d\<lparr>last_updated := Some now0\<rparr>),
                    cache_upsert ''csbattle'' (d\<lparr>last_updated := Some now0\<rparr>) now0
                      ((cache_delete ''csbattle'' store0)\<lparr>fetched := fetched store0 @ [''csbattle'']\<rparr>))"
    by (elim exE conjE)
  from t have 2: "fetched (snd (refresh_leaderboard ctx0 now0 answered ''csbattle'' store0)) =
      [''csbattle'']"
    by (simp add: store0_def)
  from f have "fetch = (\<lambda>u. fetch_csbattle_data ctx0 (reply u))"
    by (simp add: fetch_functions_def)
  then have "fetch answered = fetch_csbattle_data ctx0 (reply answered)" by simp
  with r fetch_csbattle_answered
  have 3: "\<exists>d st'. refresh_leaderboard ctx0 now0 answered ''csbattle'' store0 =
           (Inr (''Refreshed csbattle leaderboard'', d), st')
         \<and> status d = JStr (ascii ''active'') \<and> last_updated d = Some now0
         \<and> cache_lookup st' now0 ''csbattle'' = Some d"
    by (simp add: store0_def cache_delete_def cache_upsert_def cache_lookup_def
        cache_duration_def timedelta_micros_def)
  from a 2 3 show ?thesis by (intro conjI)
qed

section \<open>All leaderboards\<close>

lemma cache_lookup_fetched [simp]: "cache_lookup (st\<lparr>fetched := xs\<rparr>) now sid = cache_lookup st now sid"
  by (simp add: cache_lookup_def)

lemma cache_lookup_upsert_other:
  assumes "sid' \<noteq> sid"
  shows "cache_lookup (cache_upsert sid' d now st) now2 sid = cache_lookup st now2 sid"
  using assms by (simp add: cache_lookup_def cache_upsert_def split: option.splits)

lemma cache_lookup_other:
  assumes "sid' \<noteq> sid"
  shows "cache_lookup (snd (get_cached_or_fetch c now up sid' st)) now2 sid = cache_lookup st now2 sid"
proof (cases "cache_lookup st now sid'")
  case (Some d)
  then show ?thesis by (simp add: get_cached_or_fetch_def)
next
  case None
  show ?thesis
  proof (cases "fetch_functions c sid'")
    case n: None
    with None show ?thesis by (simp add: get_cached_or_fetch_def)
  next
    case (Some fetch)
    from get_cached_or_fetch_miss[OF None Some, of up] assms show ?thesis
      by (simp add: cache_lookup_upsert_other split: sum.splits)
  qed
qed

lemma fst_get_cached_or_fetch_cong:
  assumes "cache_lookup st now sid = cache_lookup st2 now sid"
  shows "fst (get_cached_or_fetch c now up sid st) = fst (get_cached_or_fetch c now up sid st2)"
  using assms
  by (simp add: get_cached_or_fetch_def Let_def split: option.splits sum.splits)

lemma resolve_each_entries:
  assumes "distinct sids"
  shows "map fst (fst (resolve_each c ins sids st)) = sids
     \<and> (\<forall>sid \<in> set sids. map_of (fst (resolve_each c ins sids st)) sid =
          Some (to_board sid (fst (get_cached_or_fetch c (fst (ins sid)) (snd (ins sid)) sid st))))"
  using assms
proof (induction sids arbitrary: st)
  case Nil
  show ?case by simp
next
  case (Cons a sids)
  let ?g = "get_cached_or_fetch c (fst (ins a)) (snd (ins a)) a st"
  from Cons.prems have d: "distinct sids" and a: "a \<notin> set sids" by simp_all
  note ih = Cons.IH[OF d, of "snd ?g"]
  have r: "fst (resolve_each c ins (a # sids) st) =
      (a, to_board a (fst ?g)) # fst (resolve_each c ins sids (snd ?g))"
    by (simp add: to_board_def split: prod.splits)
  have other: "fst (get_cached_or_fetch c (fst (ins sid)) (snd (ins sid)) sid (snd ?g)) =
      fst (get_cached_or_fetch c (fst (ins sid)) (snd (ins sid)) sid st)"
    if "sid \<in> set sids" for sid
  proof -
    from that a have "a \<noteq> sid" by auto
    then show ?thesis
      by (intro fst_get_cached_or_fetch_cong cache_lookup_other)
  qed
  from ih other a show ?case unfolding r by auto
qed

lemma index_fetchers_return:
  "\<exists>d. index_fetch_clash_data c now now' out = Inr d"
  "\<exists>d. index_fetch_bsite_data now out = Inr d"
  "\<exists>d. index_fetch_csbattle_data c now out = Inr d"
  "\<exists>d. index_fetch_skinfans_data c now out = Inr d"
  by (simp_all add: index_fetch_clash_data_def index_fetch_bsite_data_def
      index_fetch_csbattle_data_def index_fetch_skinfans_data_def split: sum.splits)

text \<open>
  Claim C9. \<^verbatim>\<open>get_all_leaderboards\<close> does not raise, in either file, and returns one entry
  for each of the four sites, in the order clash, bsite, csbattle, skinfans. In
  \<^verbatim>\<open>server.py\<close> the entry of a site is what \<^verbatim>\<open>get_cached_or_fetch\<close> returns for it, or,
  if it raises \<open>e\<close>, the record \<^verbatim>\<open>{"site_id": site, "error": str(e), "status": "error"}\<close>;
  and it is the entry the site would get if it were resolved alone on the state before
  the loop: the resolution of one site does not change the entry of another. In
  \<^verbatim>\<open>api/index.py\<close> the adapters do not raise, so every entry is the snapshot the adapter of
  the site returns, the one \<^verbatim>\<open>get_leaderboard\<close> returns for the site.
\<close>

theorem get_all_leaderboards_never_raises:
  "(\<exists>rs st'. get_all_leaderboards c ins st = (Inr rs, st')
      \<and> map fst rs = [''clash'', ''bsite'', ''csbattle'', ''skinfans'']
      \<and> (\<forall>sid \<in> set valid_sites.
            map_of rs sid =
              Some (case fst (get_cached_or_fetch c (fst (ins sid)) (snd (ins sid)) sid st) of
                      Inr d \<Rightarrow> Board d
                    | Inl e \<Rightarrow> Failed \<lparr>f_site_id = sid, f_error = exn_str e,
                                        f_status = ''error''\<rparr>)))
   \<and> (\<exists>rs. index_get_all_leaderboards c ups = Inr rs
      \<and> map fst rs = [''clash'', ''bsite'', ''csbattle'', ''skinfans'']
      \<and> (\<forall>sid \<in> set valid_sites.
            \<exists>d. index_get_leaderboard c (ups sid) sid = Inr d \<and> map_of rs sid = Some (Board d)))"
proof (rule conjI)
  have d: "distinct valid_sites" by (simp add: valid_sites_def)
  obtain rs st' where r: "resolve_each c ins valid_sites st = (rs, st')"
    by (cases "resolve_each c ins valid_sites st")
  then have 1: "get_all_leaderboards c ins st = (Inr rs, st')"
    by (simp add: get_all_leaderboards_def)
  from resolve_each_entries[OF d, of c ins st] r
  have k: "map fst rs = valid_sites"
    and e: "\<forall>sid \<in> set valid_sites.
            map_of rs sid =
              Some (to_board sid
                (fst (get_cached_or_fetch c (fst (ins sid)) (snd (ins sid)) sid st)))"
    by simp_all
  from k have 2: "map fst rs = [''clash'', ''bsite'', ''csbattle'', ''skinfans'']"
    by (simp add: valid_sites_def)
  from e have 3: "\<forall>sid \<in> set valid_sites.
            map_of rs sid =
              Some (case fst (get_cached_or_fetch c (fst (ins sid)) (snd (ins sid)) sid st) of
                      Inr d \<Rightarrow> Board d
                    | Inl e \<Rightarrow> Failed \<lparr>f_site_id = sid, f_error = exn_str e,
                                        f_status = ''error''\<rparr>)"
    by (simp add: to_board_def)
  from 1 2 3 show "\<exists>rs st'. get_all_leaderboards c ins st = (Inr rs, st')
      \<and> map fst rs = [''clash'', ''bsite'', ''csbattle'', ''skinfans'']
      \<and> (\<forall>sid \<in> set valid_sites.
            map_of rs sid =
              Some (case fst (get_cached_or_fetch c (fst (ins sid)) (snd (ins sid)) sid st) of
                      Inr d \<Rightarrow> Board d
                    | Inl e \<Rightarrow> Failed \<lparr>f_site_id = sid, f_error = exn_str e,
                                        f_status = ''error''\<rparr>))"
    by (intro exI[of _ rs] exI[of _ st'] conjI)
next
  from index_fetchers_return(1)[of c "clock (ups ''clash'')" "clock_later (ups ''clash'')"
      "reply (ups ''clash'')"]
  obtain d1 where d1: "index_fetch_clash_data c (clock (ups ''clash'')) (clock_later (ups ''clash''))
      (reply (ups ''clash'')) = Inr d1" ..
  from index_fetchers_return(2)[of "clock (ups ''bsite'')" "reply (ups ''bsite'')"]
  obtain d2 where d2: "index_fetch_bsite_data (clock (ups ''bsite'')) (reply (ups ''bsite'')) = Inr d2" ..
  from index_fetchers_return(3)[of c "clock (ups ''csbattle'')" "reply (ups ''csbattle'')"]
  obtain d3 where d3: "index_fetch_csbattle_data c (clock (ups ''csbattle''))
      (reply (ups ''csbattle'')) = Inr d3" ..
  from index_fetchers_return(4)[of c "clock (ups ''skinfans'')" "reply (ups ''skinfans'')"]
  obtain d4 where d4: "index_fetch_skinfans_data c (clock (ups ''skinfans''))
      (reply (ups ''skinfans'')) = Inr d4" ..
  let ?rs = "[(''clash'', Board d1), (''bsite'', Board d2), (''csbattle'', Board d3),
      (''skinfans'', Board d4)]"
  from d1 d2 d3 d4 have 1: "index_get_all_leaderboards c ups = Inr ?rs"
    by (simp add: index_get_all_leaderboards_def index_fetchers_def)
  have 2: "map fst ?rs = [''clash'', ''bsite'', ''csbattle'', ''skinfans'']" by simp
  from d1 d2 d3 d4 have 3: "\<forall>sid \<in> set valid_sites.
      \<exists>d. index_get_leaderboard c (ups sid) sid = Inr d \<and> map_of ?rs sid = Some (Board d)"
    by (simp add: valid_sites_def index_get_leaderboard_def index_fetchers_def)
  from 1 2 3 show "\<exists>rs. index_get_all_leaderboards c ups = Inr rs
      \<and> map fst rs = [''clash'', ''bsite'', ''csbattle'', ''skinfans'']
      \<and> (\<forall>sid \<in> set valid_sites.
            \<exists>d. index_get_leaderboard c (ups sid) sid = Inr d \<and> map_of rs sid = Some (Board d))"
    by (intro exI[of _ ?rs] conjI)
qed

lemma fetch_bsite_answered:
  "\<exists>d. fetch_bsite_data (reply answered) = Inr d \<and> status d = JStr (ascii ''active'')
     \<and> users d = []"
  by (simp add: fetch_bsite_data_def bsite_try_def answered_def json_body_def
      bsite_normalize_def bsite_static_def sorted_desc_def)

lemma fetch_skinfans_answered:
  "\<exists>d. fetch_skinfans_data ctx0 (reply answered) = Inr d \<and> status d = JStr (ascii ''ended'')
     \<and> users d = []"
  by (simp add: fetch_skinfans_data_def skinfans_try_def ctx0_def answered_def json_body_def
      raise_for_status_def skinfans_race_def skinfans_places_def skinfans_static_def)

lemma show_int_500: "show_int 500 = ''500''"
  by code_simp

text \<open>
  The theorem when Clash.gg times out and the other three providers answer, without a
  store: \<^verbatim>\<open>server.py\<close> returns four entries, the failure record for Clash.gg and three
  snapshots; \<^verbatim>\<open>api/index.py\<close> returns four entries, the one of Clash.gg being its error
  snapshot.
\<close>

theorem get_all_leaderboards_never_raises_witness:
  "(\<exists>rs st'. get_all_leaderboards ctx0 clash_down no_store = (Inr rs, st')
      \<and> length rs = 4
      \<and> map_of rs ''clash'' =
          Some (Failed \<lparr>f_site_id = ''clash'',
                        f_error = ''500: Failed to fetch Clash.gg data: timed out'',
                        f_status = ''error''\<rparr>)
      \<and> (\<exists>d. map_of rs ''bsite'' = Some (Board d) \<and> status d = JStr (ascii ''active''))
      \<and> (\<exists>d. map_of rs ''csbattle'' = Some (Board d) \<and> status d = JStr (ascii ''active''))
      \<and> (\<exists>d. map_of rs ''skinfans'' = Some (Board d) \<and> status d = JStr (ascii ''ended'')))
   \<and> (\<exists>rs d. index_get_all_leaderboards ctx0 (\<lambda>sid. snd (clash_down sid)) = Inr rs
      \<and> length rs = 4
      \<and> map_of rs ''clash'' = Some (Board d) \<and> status d = JStr (ascii ''error''))"
proof -
  let ?ups = "\<lambda>sid. snd (clash_down sid)"
  note t = get_all_leaderboards_never_raises[where c = ctx0 and ins = clash_down
      and st = no_store and ups = ?ups]
  from t[THEN conjunct1] obtain rs st' where
    g: "get_all_leaderboards ctx0 clash_down no_store = (Inr rs, st')"
    and k: "map fst rs = [''clash'', ''bsite'', ''csbattle'', ''skinfans'']"
    and e: "\<forall>sid \<in> set valid_sites.
            map_of rs sid =
              Some (case fst (get_cached_or_fetch ctx0 (fst (clash_down sid))
                      (snd (clash_down sid)) sid no_store) of
                      Inr d \<Rightarrow> Board d
                    | Inl e \<Rightarrow> Failed \<lparr>f_site_id = sid, f_error = exn_str e,
                                        f_status = ''error''\<rparr>)"
    by (elim exE conjE)
  have l: "cache_lookup no_store now sid = None" for now sid
    by (simp add: cache_lookup_def no_store_def)
  have f1: "fst (get_cached_or_fetch ctx0 now0 timed_out ''clash'' no_store) =
      Inl (HTTPException 500 ''Failed to fetch Clash.gg data: timed out'')"
    by (simp add: get_cached_or_fetch_def l fetch_functions_def timed_out_def
        fetch_clash_data_def clash_try_def)
  have f2: "\<exists>d. fst (get_cached_or_fetch ctx0 now0 answered ''bsite'' no_store) = Inr d
      \<and> status d = JStr (ascii ''active'')"
    using fetch_bsite_answered
    by (auto simp add: get_cached_or_fetch_def l fetch_functions_def Let_def)
  have f3: "\<exists>d. fst (get_cached_or_fetch ctx0 now0 answered ''csbattle'' no_store) = Inr d
      \<and> status d = JStr (ascii ''active'')"
    using fetch_csbattle_answered
    by (auto simp add: get_cached_or_fetch_def l fetch_functions_def Let_def)
  have f4: "\<exists>d. fst (get_cached_or_fetch ctx0 now0 answered ''skinfans'' no_store) = Inr d
      \<and> status d = JStr (ascii ''ended'')"
    using fetch_skinfans_answered
    by (auto simp add: get_cached_or_fetch_def l fetch_functions_def Let_def)
  from k have 0: "length rs = 4" by (auto dest: arg_cong[where f = length])
  have v: "''clash'' \<in> set valid_sites" "''bsite'' \<in> set valid_sites"
    "''csbattle'' \<in> set valid_sites" "''skinfans'' \<in> set valid_sites"
    by (simp_all add: valid_sites_def)
  from e[rule_format, OF v(1)] f1
  have 1: "map_of rs ''clash'' =
          Some (Failed \<lparr>f_site_id = ''clash'',
                        f_error = ''500: Failed to fetch Clash.gg data: timed out'',
                        f_status = ''error''\<rparr>)"
    by (simp add: clash_down_def show_int_500)
  from e[rule_format, OF v(2)] f2
  have 2: "\<exists>d. map_of rs ''bsite'' = Some (Board d) \<and> status d = JStr (ascii ''active'')"
    by (auto simp add: clash_down_def)
  from e[rule_format, OF v(3)] f3
  have 3: "\<exists>d. map_of rs ''csbattle'' = Some (Board d) \<and> status d = JStr (ascii ''active'')"
    by (auto simp add: clash_down_def)
  from e[rule_format, OF v(4)] f4
  have 4: "\<exists>d. map_of rs ''skinfans'' = Some (Board d) \<and> status d = JStr (ascii ''ended'')"
    by (auto simp add: clash_down_def)
  from g 0 1 2 3 4
  have A: "\<exists>rs st'. get_all_leaderboards ctx0 clash_down no_store = (Inr rs, st')
      \<and> length rs = 4
      \<and> map_of rs ''clash'' =
          Some (Failed \<lparr>f_site_id = ''clash'',
                        f_error = ''500: Failed to fetch Clash.gg data: timed out'',
                        f_status = ''error''\<rparr>)
      \<and> (\<exists>d. map_of rs ''bsite'' = Some (Board d) \<and> status d = JStr (ascii ''active''))
      \<and> (\<exists>d. map_of rs ''csbattle'' = Some (Board d) \<and> status d = JStr (ascii ''active''))
      \<and> (\<exists>d. map_of rs ''skinfans'' = Some (Board d) \<and> status d = JStr (ascii ''ended''))"
    by (intro exI[of _ rs] exI[of _ st'] conjI)
  from t[THEN conjunct2] obtain rs2 where
    g2: "index_get_all_leaderboards ctx0 ?ups = Inr rs2"
    and k2: "map fst rs2 = [''clash'', ''bsite'', ''csbattle'', ''skinfans'']"
    and e2: "\<forall>sid \<in> set valid_sites.
            \<exists>d. index_get_leaderboard ctx0 (?ups sid) sid = Inr d
              \<and> map_of rs2 sid = Some (Board d)"
    by (elim exE conjE)
  from k2 have 5: "length rs2 = 4" by (auto dest: arg_cong[where f = length])
  from e2[rule_format, OF v(1)] obtain d where
    i: "index_get_leaderboard ctx0 (?ups ''clash'') ''clash'' = Inr d"
    and m: "map_of rs2 ''clash'' = Some (Board d)"
    by (elim exE conjE)
  from i have 6: "status d = JStr (ascii ''error'')"
    by (auto simp add: index_get_leaderboard_def valid_sites_def index_fetchers_def
        clash_down_def timed_out_def index_fetch_clash_data_def clash_try_def)
  from g2 5 m 6
  have B: "\<exists>rs d. index_get_all_leaderboards ctx0 ?ups = Inr rs
      \<and> length rs = 4
      \<and> map_of rs ''clash'' = Some (Board d) \<and> status d = JStr (ascii ''error'')"
    by (intro exI[of _ rs2] exI[of _ d] conjI)
  from A B show ?thesis by (rule conjI)
qed

end
